theory Spec2Isabelle
  imports Complex_Main "HOL-Library.Multiset"
begin

section \<open>Dataset playback: the embedding of playback_dataset.py\<close>

text \<open>
  The playback script drives an external simulator from a recorded trajectory. Python
  exceptions are values of \<open>exn\<close>; a procedure returns its outcome (\<open>None\<close> when it
  returns normally, \<open>Some e\<close> when it raises \<open>e\<close>) together with the state it leaves
  behind, so that the effects made before a raise stay visible.
\<close>

datatype exn =
    AssertionError | TypeError | ValueError | IndexError | KeyError
  | ZeroDivisionError | AttributeError | NameError
  | SystemExit nat

text \<open>\<open>except Exception\<close> catches every class above but \<open>SystemExit\<close>, which derives
  from \<open>BaseException\<close> only.\<close>

fun is_Exception :: "exn \<Rightarrow> bool" where
  "is_Exception (SystemExit c) = False"
| "is_Exception e = True"

subsection \<open>Python helpers\<close>

text \<open>\<open>xs[i]\<close> for a Python int \<open>i\<close>: a negative index counts from the end.\<close>

definition py_index :: "'a list \<Rightarrow> int \<Rightarrow> exn + 'a" where
  "py_index xs i =
     (let len = int (length xs); j = (if i < 0 then i + len else i)
      in if 0 \<le> j \<and> j < len then Inr (xs ! nat j) else Inl IndexError)"

text \<open>\<open>range(a, b)\<close>.\<close>

definition py_range :: "int \<Rightarrow> int \<Rightarrow> int list" where
  "py_range a b = [a..b - 1]"

text \<open>
  \<open>random.randrange(stop)\<close> raises ValueError on an empty range and otherwise returns
  some \<open>k\<close> with \<open>0 \<le> k < stop\<close>. The model takes the generator's raw output \<open>seed\<close>
  as an argument and reduces it into the range: every \<open>k\<close> of the range is the result
  for the seed \<open>k\<close>, and nothing is assumed about the distribution.
\<close>

definition randrange :: "int \<Rightarrow> nat \<Rightarrow> exn + int" where
  "randrange stop seed = (if stop \<le> 0 then Inl ValueError else Inr (int seed mod stop))"

text \<open>
  \<open>for x in xs: body(x); if first: break\<close>. A raise in the body leaves the loop with the
  state reached so far.
\<close>

fun for_loop :: "('i \<Rightarrow> 's \<Rightarrow> exn option \<times> 's) \<Rightarrow> bool \<Rightarrow> 'i list \<Rightarrow> 's \<Rightarrow> exn option \<times> 's" where
  "for_loop body brk [] s = (None, s)"
| "for_loop body brk (x # xs) s =
     (case body x s of
        (Some e, s') \<Rightarrow> (Some e, s')
      | (None, s') \<Rightarrow> if brk then (None, s') else for_loop body brk xs s')"

subsection \<open>Frame-window selection (playback_trajectory_with_env, lines 87-92)\<close>

definition select_window :: "int option \<Rightarrow> int \<Rightarrow> nat \<Rightarrow> exn + (int \<times> int)" where
  "select_window num_frames traj_len seed =
     (case num_frames of
        None \<Rightarrow> Inr (0, traj_len)
      | Some nf \<Rightarrow>
          (case randrange (traj_len - min nf traj_len + 1) seed of
             Inl e \<Rightarrow> Inl e
           | Inr start_frame \<Rightarrow> Inr (start_frame, start_frame + min nf traj_len)))"

subsection \<open>Simulator state vectors and the divergence check\<close>

text \<open>
  A flattened simulator state is a one-dimensional array of floats; the model takes its
  elements as reals (so no NaN). numpy broadcasts two one-dimensional operands when
  their lengths agree or one of them has length 1, and raises ValueError otherwise.
\<close>

type_synonym vec = "real list"

definition np_broadcast :: "vec \<Rightarrow> vec \<Rightarrow> exn + (vec \<times> vec)" where
  "np_broadcast a b =
     (if length a = length b then Inr (a, b)
      else if length a = 1 then Inr (replicate (length b) (hd a), b)
      else if length b = 1 then Inr (a, replicate (length a) (hd b))
      else Inl ValueError)"

text \<open>\<open>np.all(np.equal(a, b))\<close>.\<close>

definition np_all_equal :: "vec \<Rightarrow> vec \<Rightarrow> exn + bool" where
  "np_all_equal a b =
     (case np_broadcast a b of
        Inl e \<Rightarrow> Inl e
      | Inr (a', b') \<Rightarrow> Inr (list_all (\<lambda>(x, y). x = y) (zip a' b')))"

text \<open>\<open>np.linalg.norm(a - b)\<close>: the Euclidean norm of the element-wise difference.\<close>

definition linalg_norm :: "vec \<Rightarrow> real" where
  "linalg_norm d = sqrt (sum_list (map (\<lambda>x. x * x) d))"

definition np_norm_diff :: "vec \<Rightarrow> vec \<Rightarrow> exn + real" where
  "np_norm_diff a b =
     (case np_broadcast a b of
        Inl e \<Rightarrow> Inl e
      | Inr (a', b') \<Rightarrow> Inr (linalg_norm (map (\<lambda>(x, y). x - y) (zip a' b'))))"

subsection \<open>The simulation backend and the effects the script makes\<close>

text \<open>
  A parsed JSON object is an association list from keys to the text of their values.
\<close>

type_synonym json = "(string \<times> string) list"

text \<open>Every method the script calls on the environment that may change it.\<close>

datatype env_call =
    SetAttrsFromEpMeta json
  | SetEpMeta json
  | EnvReset
  | ResetFromXmlString string
  | SimReset
  | SetStateFromFlattened vec
  | SimForward
  | UpdateSites
  | UpdateState
  | EnvStep vec
  | InitializeRenderer
  | ViewerUpdate
  | ViewerClose
  | EnvClose

text \<open>
  The trace of what one run does in order: calls on the environment, lines printed,
  and calls on the video writer. \<open>AppendData imgs\<close> stands for
  \<open>video_writer.append_data(np.concatenate(imgs, axis=1))\<close>.
\<close>

datatype 'img event =
    Env env_call
  | Print string
  | WarnDiverged real int
  | ErrorOpeningFile string
  | ErrorEpisode string exn
  | GetWriter string
  | AppendData "'img list"
  | WriterClose
  | FileClose

text \<open>
  The simulator is not modelled: an environment is a value of an arbitrary type \<open>'e\<close>,
  and the physics, the renderer, the XML tools, the JSON parser, the file system and
  the random shuffle are parameters, collected in one record. \<open>apply_call\<close> gives the
  environment after a call, \<open>get_state\<close> is
  \<open>np.array(env.sim.get_state().flatten())\<close>, \<open>sim_render\<close> is
  \<open>env.sim.render(height, width, camera_name)[::-1]\<close>, and the four \<open>has_\<close> flags are
  the \<open>hasattr\<close> probes of \<open>reset_to\<close>.
\<close>

record 'img episode =
  ep_states :: "vec list option"
  ep_actions :: "vec list option"
  ep_actions_abs :: "vec list option"
  ep_model_file :: "string option"
  ep_meta_attr :: "string option"
  ep_obs :: "(string \<times> 'img list) list"

record 'img hdf5 =
  h5_data :: "(string \<times> 'img episode) list option"
  h5_mask :: "(string \<times> string list) list"
  h5_env_args :: "string option"

record ('e, 'img) backend =
  apply_call :: "env_call \<Rightarrow> 'e \<Rightarrow> 'e"
  get_state :: "'e \<Rightarrow> vec"
  sim_render :: "'e \<Rightarrow> string \<Rightarrow> int \<Rightarrow> int \<Rightarrow> 'img"
  get_xml :: "'e \<Rightarrow> string"
  edit_model_xml :: "'e \<Rightarrow> string \<Rightarrow> string"
  postprocess_model_xml :: "string \<Rightarrow> string"
  robosuite_version_id :: int
  has_set_attrs_from_ep_meta :: bool
  has_set_ep_meta :: bool
  has_update_sites :: bool
  has_update_state :: bool
  json_loads :: "string \<Rightarrow> json option"
  robosuite_make :: "json \<Rightarrow> bool \<Rightarrow> bool \<Rightarrow> 'e"
  make_ik_indicator_invisible :: "string \<Rightarrow> string"
  h5py_File :: "string \<Rightarrow> 'img hdf5 option"
  expanduser :: "string \<Rightarrow> string"
  random_shuffle :: "string list \<Rightarrow> string list"

text \<open>
  What playing one episode changes: the environment, whether \<open>env.viewer\<close> is set, and
  the trace.
\<close>

record ('e, 'img) pstate =
  sim :: 'e
  viewer :: bool
  out :: "'img event list"

definition emit :: "'img event \<Rightarrow> ('e, 'img) pstate \<Rightarrow> ('e, 'img) pstate" where
  "emit ev s = s\<lparr>out := out s @ [ev]\<rparr>"

definition call :: "('e, 'img) backend \<Rightarrow> env_call \<Rightarrow> ('e, 'img) pstate \<Rightarrow> ('e, 'img) pstate" where
  "call B c s = s\<lparr>sim := apply_call B c (sim s), out := out s @ [Env c]\<rparr>"

subsection \<open>reset_to\<close>

text \<open>
  The \<open>state\<close> dictionary of \<open>reset_to\<close>: each key may be absent, and the value under
  \<open>ep_meta\<close> may be None.
\<close>

record state_dict =
  sd_states :: "vec option"
  sd_model :: "string option"
  sd_ep_meta :: "string option option"

text \<open>Lines 253-277: the branch taken when the dictionary has the key \<open>model\<close>.\<close>

definition reset_to_model :: "('e, 'img) backend \<Rightarrow> string \<Rightarrow> string option option \<Rightarrow>
    ('e, 'img) pstate \<Rightarrow> exn option \<times> ('e, 'img) pstate" where
  "reset_to_model B model meta s =
     (case (case meta of Some (Some raw) \<Rightarrow> json_loads B raw | _ \<Rightarrow> Some []) of
        None \<Rightarrow> (Some ValueError, s)
      | Some ep_meta \<Rightarrow>
          (let s1 = (if has_set_attrs_from_ep_meta B then call B (SetAttrsFromEpMeta ep_meta) s
                     else if has_set_ep_meta B then call B (SetEpMeta ep_meta) s
                     else s);
               s2 = call B EnvReset s1;
               xml = (if robosuite_version_id B \<le> 3 then postprocess_model_xml B model
                      else edit_model_xml B (sim s2) model);
               s3 = call B (ResetFromXmlString xml) s2
           in (None, call B SimReset s3)))"

definition reset_to :: "('e, 'img) backend \<Rightarrow> state_dict \<Rightarrow>
    ('e, 'img) pstate \<Rightarrow> exn option \<times> ('e, 'img) pstate" where
  "reset_to B state s =
     (case (case sd_model state of
              Some model \<Rightarrow> reset_to_model B model (sd_ep_meta state) s
            | None \<Rightarrow> (None, s)) of
        (Some e, s') \<Rightarrow> (Some e, s')
      | (None, s1) \<Rightarrow>
          (let s2 = (case sd_states state of
                       Some v \<Rightarrow> call B SimForward (call B (SetStateFromFlattened v) s1)
                     | None \<Rightarrow> s1);
               s3 = (if has_update_sites B then call B UpdateSites s2 else s2);
               s4 = (if has_update_state B then call B UpdateState s3 else s3)
           in (None, s4)))"

subsection \<open>Command-line arguments\<close>

record args =
  args_dataset :: string
  args_filter_key :: "string option"
  args_n :: "int option"
  args_num_parallel_jobs :: int
  args_num_frames :: "int option"
  args_use_obs :: bool
  args_use_actions :: bool
  args_use_abs_actions :: bool
  args_render :: bool
  args_video_path :: "string option"
  args_video_skip :: int
  args_render_image_names :: "string list option"
  args_render_height :: int
  args_render_width :: int
  args_first :: bool
  args_extend_states :: bool
  args_verbose :: bool
  args_use_current_env_model :: bool

subsection \<open>playback_trajectory_with_env\<close>

text \<open>Lines 71-76: the verbose banner reads \<open>initial_state["ep_meta"]\<close> through
  \<open>json.loads\<close>, which raises TypeError on None.\<close>

definition announce :: "('e, 'img) backend \<Rightarrow> state_dict \<Rightarrow> bool \<Rightarrow>
    ('e, 'img) pstate \<Rightarrow> exn option \<times> ('e, 'img) pstate" where
  "announce B initial_state verbose s =
     (if verbose then
        (case sd_ep_meta initial_state of
           None \<Rightarrow> (Some KeyError, s)
         | Some None \<Rightarrow> (Some TypeError, s)
         | Some (Some raw) \<Rightarrow>
             (case json_loads B raw of
                None \<Rightarrow> (Some ValueError, s)
              | Some ep_meta \<Rightarrow>
                  (let s1 = (case map_of ep_meta ''lang'' of
                               Some lang \<Rightarrow> emit (Print (''Instruction: '' @ lang)) s
                             | None \<Rightarrow> s)
                   in (None, emit (Print ''Spawning environment...'') s1))))
      else (None, s))"

text \<open>Lines 96-111: one step of action replay, with the divergence check.\<close>

definition action_step :: "('e, 'img) backend \<Rightarrow> vec list \<Rightarrow> vec list \<Rightarrow> bool \<Rightarrow> int \<Rightarrow> int \<Rightarrow>
    ('e, 'img) pstate \<Rightarrow> exn option \<times> ('e, 'img) pstate" where
  "action_step B states actions verbose traj_len i s =
     (case py_index actions i of
        Inl e \<Rightarrow> (Some e, s)
      | Inr a \<Rightarrow>
          (let s1 = call B (EnvStep a) s in
           if i < traj_len - 1 then
             (case py_index states (i + 1) of
                Inl e \<Rightarrow> (Some e, s1)
              | Inr recorded \<Rightarrow>
                  (let state_playback = get_state B (sim s1) in
                   case np_all_equal recorded state_playback of
                     Inl e \<Rightarrow> (Some e, s1)
                   | Inr same \<Rightarrow>
                       if \<not> same then
                         (case np_norm_diff recorded state_playback of
                            Inl e \<Rightarrow> (Some e, s1)
                          | Inr err \<Rightarrow>
                              if verbose \<or> i = traj_len - 2
                              then (None, emit (WarnDiverged err i) s1)
                              else (None, s1))
                       else (None, s1)))
           else (None, s1)))"

text \<open>Line 113: one step of state replay.\<close>

definition state_step :: "('e, 'img) backend \<Rightarrow> vec list \<Rightarrow> int \<Rightarrow>
    ('e, 'img) pstate \<Rightarrow> exn option \<times> ('e, 'img) pstate" where
  "state_step B states i s =
     (case py_index states i of
        Inl e \<Rightarrow> (Some e, s)
      | Inr v \<Rightarrow> reset_to B \<lparr>sd_states = Some v, sd_model = None, sd_ep_meta = None\<rparr> s)"

text \<open>Lines 116-127: on-screen rendering (the sleep that caps the frame rate is real
  time and has no counterpart here).\<close>

definition on_screen :: "('e, 'img) backend \<Rightarrow> ('e, 'img) pstate \<Rightarrow> ('e, 'img) pstate" where
  "on_screen B s =
     (let s1 = (if \<not> viewer s then (call B InitializeRenderer s)\<lparr>viewer := True\<rparr> else s)
      in call B ViewerUpdate s1)"

text \<open>Lines 132-143: render every camera and append the frame.\<close>

definition video_frame :: "('e, 'img) backend \<Rightarrow> args \<Rightarrow> string list option \<Rightarrow>
    ('e, 'img) pstate \<Rightarrow> exn option \<times> ('e, 'img) pstate" where
  "video_frame B a camera_names s =
     (case camera_names of
        None \<Rightarrow> (Some TypeError, s)
      | Some cams \<Rightarrow>
          if cams = [] then (Some ValueError, s)
          else (None, emit (AppendData (map (\<lambda>cam. sim_render B (sim s) cam
                  (args_render_height a) (args_render_width a)) cams)) s))"

text \<open>Lines 94-147: the body of the loop; the loop state is \<open>video_count\<close> and the
  playback state.\<close>

definition play_frame :: "('e, 'img) backend \<Rightarrow> args \<Rightarrow> vec list \<Rightarrow> vec list option \<Rightarrow> bool \<Rightarrow>
    string option \<Rightarrow> int \<Rightarrow> string list option \<Rightarrow> bool \<Rightarrow> int \<Rightarrow> int \<Rightarrow>
    int \<times> ('e, 'img) pstate \<Rightarrow> exn option \<times> (int \<times> ('e, 'img) pstate)" where
  "play_frame B a states actions render video_writer video_skip camera_names verbose traj_len i vs =
     (case vs of (video_count, s) \<Rightarrow>
       (case (case actions of
                Some acts \<Rightarrow> action_step B states acts verbose traj_len i s
              | None \<Rightarrow> state_step B states i s) of
          (Some e, s1) \<Rightarrow> (Some e, (video_count, s1))
        | (None, s1) \<Rightarrow>
            (let s2 = (if render then on_screen B s1 else s1) in
             case video_writer of
               None \<Rightarrow> (None, (video_count, s2))
             | Some wr \<Rightarrow>
                 if video_skip = 0 then (Some ZeroDivisionError, (video_count, s2))
                 else
                   (case (if video_count mod video_skip = 0
                          then video_frame B a camera_names s2 else (None, s2)) of
                      (Some e, s3) \<Rightarrow> (Some e, (video_count, s3))
                    | (None, s3) \<Rightarrow> (None, (video_count + 1, s3))))))"

definition playback_trajectory_with_env :: "('e, 'img) backend \<Rightarrow> args \<Rightarrow> state_dict \<Rightarrow>
    vec list \<Rightarrow> vec list option \<Rightarrow> bool \<Rightarrow> string option \<Rightarrow> int \<Rightarrow> string list option \<Rightarrow>
    bool \<Rightarrow> bool \<Rightarrow> nat \<Rightarrow> ('e, 'img) pstate \<Rightarrow> exn option \<times> ('e, 'img) pstate" where
  "playback_trajectory_with_env B a initial_state states actions render video_writer
       video_skip camera_names first verbose seed s =
     (if render \<and> video_writer \<noteq> None then (Some AssertionError, s)
      else
        case announce B initial_state verbose s of
          (Some e, s1) \<Rightarrow> (Some e, s1)
        | (None, s1) \<Rightarrow>
        case reset_to B initial_state s1 of
          (Some e, s2) \<Rightarrow> (Some e, s2)
        | (None, s2) \<Rightarrow>
        let traj_len = int (length states) in
        if (case actions of Some acts \<Rightarrow> length states \<noteq> length acts | None \<Rightarrow> False)
        then (Some AssertionError, s2)
        else
          let s3 = (if \<not> render then emit (Print ''Running episode...'') s2 else s2) in
          case select_window (args_num_frames a) traj_len seed of
            Inl e \<Rightarrow> (Some e, s3)
          | Inr (start_frame, end_frame) \<Rightarrow>
          case for_loop (play_frame B a states actions render video_writer video_skip
                           camera_names verbose traj_len)
                 first (py_range start_frame end_frame) (0, s3) of
            (Some e, (video_count, s4)) \<Rightarrow> (Some e, s4)
          | (None, (video_count, s4)) \<Rightarrow>
              if render then
                (if viewer s4 then (None, (call B ViewerClose s4)\<lparr>viewer := False\<rparr>)
                 else (Some AttributeError, s4))
              else (None, s4))"

subsection \<open>playback_trajectory_with_obs\<close>

text \<open>The list comprehension of line 182: the first failing element raises.\<close>

fun collect :: "(exn + 'a) list \<Rightarrow> exn + 'a list" where
  "collect [] = Inr []"
| "collect (Inl e # rs) = Inl e"
| "collect (Inr x # rs) = (case collect rs of Inl e \<Rightarrow> Inl e | Inr xs \<Rightarrow> Inr (x # xs))"

definition obs_images :: "'img episode \<Rightarrow> string \<Rightarrow> exn + 'img list" where
  "obs_images traj_grp k =
     (case map_of (ep_obs traj_grp) (k @ ''_image'') of
        None \<Rightarrow> Inl KeyError
      | Some imgs \<Rightarrow> Inr imgs)"

definition obs_frame :: "'img episode \<Rightarrow> string list \<Rightarrow> int \<Rightarrow> exn + 'img list" where
  "obs_frame traj_grp image_names i =
     collect (map (\<lambda>k. case obs_images traj_grp k of
                           Inl e \<Rightarrow> Inl e
                         | Inr imgs \<Rightarrow> py_index imgs i) image_names)"

definition obs_body :: "'img episode \<Rightarrow> string option \<Rightarrow> int \<Rightarrow> string list \<Rightarrow> int \<Rightarrow>
    int \<times> 'img event list \<Rightarrow> exn option \<times> (int \<times> 'img event list)" where
  "obs_body traj_grp video_writer video_skip image_names i vl =
     (case vl of (video_count, lg) \<Rightarrow>
        if video_skip = 0 then (Some ZeroDivisionError, (video_count, lg))
        else if video_count mod video_skip = 0 then
          (case obs_frame traj_grp image_names i of
             Inl e \<Rightarrow> (Some e, (video_count, lg))
           | Inr im \<Rightarrow>
               (case video_writer of
                  None \<Rightarrow> (Some AttributeError, (video_count, lg))
                | Some wr \<Rightarrow> (None, (video_count + 1, lg @ [AppendData im]))))
        else (None, (video_count + 1, lg)))"

definition playback_trajectory_with_obs :: "'img episode \<Rightarrow> string option \<Rightarrow> int \<Rightarrow>
    string list option \<Rightarrow> bool \<Rightarrow> 'img event list \<Rightarrow> exn option \<times> 'img event list" where
  "playback_trajectory_with_obs traj_grp video_writer video_skip image_names first lg =
     (case image_names of
        None \<Rightarrow> (Some AssertionError, lg)
      | Some names \<Rightarrow>
          (case py_index names 0 of
             Inl e \<Rightarrow> (Some e, lg)
           | Inr name0 \<Rightarrow>
               (case obs_images traj_grp name0 of
                  Inl e \<Rightarrow> (Some e, lg)
                | Inr imgs0 \<Rightarrow>
                    (case for_loop (obs_body traj_grp video_writer video_skip names) first
                            (py_range 0 (int (length imgs0))) (0, lg) of
                       (r, (video_count, lg2)) \<Rightarrow> (r, lg2)))))"

subsection \<open>get_env_metadata_from_dataset and make_env_from_args\<close>

text \<open>
  Lines 205-216. The message names \<open>args.dataset\<close>, the module-level \<open>args\<close> of the
  script. \<open>sys.exit(1)\<close> raises \<open>SystemExit 1\<close>.
\<close>

definition get_env_metadata_from_dataset :: "('e, 'img) backend \<Rightarrow> args \<Rightarrow> string \<Rightarrow>
    'img event list \<Rightarrow> (exn + json) \<times> 'img event list" where
  "get_env_metadata_from_dataset B a dataset_path lg =
     (case h5py_File B (expanduser B dataset_path) of
        None \<Rightarrow> (Inl (SystemExit 1), lg @ [ErrorOpeningFile (args_dataset a)])
      | Some f \<Rightarrow>
          (case h5_data f of
             None \<Rightarrow> (Inl KeyError, lg)
           | Some d \<Rightarrow>
               (case h5_env_args f of
                  None \<Rightarrow> (Inl KeyError, lg)
                | Some raw \<Rightarrow>
                    (case json_loads B raw of
                       None \<Rightarrow> (Inl ValueError, lg)
                     | Some env_meta \<Rightarrow> (Inr env_meta, lg @ [FileClose])))))"

text \<open>
  Lines 311-334. The edits of the keyword dictionary are left to the parameter
  \<open>robosuite_make\<close>, which receives what they depend on: the metadata, whether absolute
  actions are used, and \<open>has_offscreen_renderer = not args.render\<close>.
\<close>

definition make_env_from_args :: "('e, 'img) backend \<Rightarrow> args \<Rightarrow>
    'img event list \<Rightarrow> (exn + 'e) \<times> 'img event list" where
  "make_env_from_args B a lg =
     (case get_env_metadata_from_dataset B a (args_dataset a) lg of
        (Inl e, lg1) \<Rightarrow> (Inl e, lg1)
      | (Inr env_meta, lg1) \<Rightarrow>
          (let lg2 = (if args_verbose a then lg1 @ [Print ''Initializing environment...''] else lg1)
           in (Inr (robosuite_make B env_meta (args_use_abs_actions a) (\<not> args_render a)), lg2)))"

subsection \<open>process_demo\<close>

definition h5_episode :: "'img hdf5 \<Rightarrow> string \<Rightarrow> 'img episode option" where
  "h5_episode f ep = (case h5_data f of None \<Rightarrow> None | Some d \<Rightarrow> map_of d ep)"

text \<open>Line 404: \<open>np.concatenate((states, [states[-1]] * 50))\<close>.\<close>

definition extend_states :: "vec list \<Rightarrow> vec list" where
  "extend_states states = states @ replicate 50 (last states)"

text \<open>
  Lines 377-437: the part of \<open>process_demo\<close> that plays through the simulator. The
  nested function that hides the inverse-kinematics markers in the stored XML is the
  parameter \<open>make_ik_indicator_invisible\<close>; the writer exists exactly when
  \<open>write_video\<close> holds, so the model asks the writer.
\<close>

definition process_demo_env :: "('e, 'img) backend \<Rightarrow> args \<Rightarrow> nat \<Rightarrow> string \<Rightarrow> string option \<Rightarrow>
    'img hdf5 \<Rightarrow> 'e \<Rightarrow> 'img event list \<Rightarrow> exn option \<times> 'img event list" where
  "process_demo_env B a seed ep video_writer f env lg =
     (case h5_episode f ep of
        None \<Rightarrow> (Some KeyError, lg)
      | Some grp \<Rightarrow>
      case ep_states grp of
        None \<Rightarrow> (Some KeyError, lg)
      | Some states0 \<Rightarrow>
      case py_index states0 0 of
        Inl e \<Rightarrow> (Some e, lg)
      | Inr first_state \<Rightarrow>
      case ep_model_file grp of
        None \<Rightarrow> (Some KeyError, lg)
      | Some model_file \<Rightarrow>
      let model = (if args_use_current_env_model a then get_xml B env
                   else make_ik_indicator_invisible B model_file);
          initial_state = \<lparr>sd_states = Some first_state, sd_model = Some model,
                           sd_ep_meta = Some (ep_meta_attr grp)\<rparr>;
          states = (if args_extend_states a then extend_states states0 else states0)
      in
      if args_use_actions a \<and> args_use_abs_actions a then (Some AssertionError, lg)
      else
      case (if args_use_actions a then
              (case ep_actions grp of None \<Rightarrow> Inl KeyError | Some acts \<Rightarrow> Inr (Some acts))
            else if args_use_abs_actions a then
              (case ep_actions_abs grp of None \<Rightarrow> Inl KeyError | Some acts \<Rightarrow> Inr (Some acts))
            else Inr None) of
        Inl e \<Rightarrow> (Some e, lg)
      | Inr actions \<Rightarrow>
      case playback_trajectory_with_env B a initial_state states actions (args_render a)
             video_writer (args_video_skip a) (args_render_image_names a) (args_first a)
             (args_verbose a) seed \<lparr>sim = env, viewer = False, out = lg\<rparr> of
        (Some e, s) \<Rightarrow> (Some e, out s)
      | (None, s) \<Rightarrow>
          (let s1 = (case video_writer of
                       Some ep_path \<Rightarrow>
                         emit WriterClose (emit (Print (''Saved video to '' @ ep_path)) s)
                     | None \<Rightarrow> s)
           in (None, out (call B EnvClose (emit FileClose s1)))))"

text \<open>Lines 344-375: the video writer, the dataset handle, and observation playback.\<close>

definition process_demo :: "('e, 'img) backend \<Rightarrow> args \<Rightarrow> nat \<Rightarrow> string \<Rightarrow>
    'img event list \<Rightarrow> exn option \<times> 'img event list" where
  "process_demo B a seed ep lg0 =
     (let lg = lg0 @ [Print (''Playing back episode: '' @ ep)];
          write_video = (\<not> args_render a)
      in
      case (if write_video then
              (case args_video_path a of
                 None \<Rightarrow> Inl TypeError
               | Some vp \<Rightarrow> Inr (Some (take (length vp - 4) vp @ ''_'' @ ep @ ''.mp4'')))
            else Inr None) of
        Inl e \<Rightarrow> (Some e, lg)
      | Inr video_writer \<Rightarrow>
      let lg1 = (case video_writer of Some ep_path \<Rightarrow> lg @ [GetWriter ep_path] | None \<Rightarrow> lg) in
      case h5py_File B (args_dataset a) of
        None \<Rightarrow> (Some (SystemExit 1), lg1 @ [ErrorOpeningFile (args_dataset a)])
      | Some f \<Rightarrow>
      if args_use_obs a then
        (case h5_episode f ep of
           None \<Rightarrow> (Some KeyError, lg1)
         | Some traj_grp \<Rightarrow>
             (case playback_trajectory_with_obs traj_grp video_writer (args_video_skip a)
                     (args_render_image_names a) (args_first a) lg1 of
                (Some e, lg2) \<Rightarrow> (Some e, lg2)
              | (None, lg2) \<Rightarrow>
                  (let lg3 = (case video_writer of
                                Some ep_path \<Rightarrow>
                                  lg2 @ [Print (''Saved video to '' @ ep_path), WriterClose]
                              | None \<Rightarrow> lg2)
                   in (None, lg3 @ [FileClose]))))
      else
        (case make_env_from_args B a lg1 of
           (Inl e, lg2) \<Rightarrow> (Some e, lg2)
         | (Inr env, lg2) \<Rightarrow> process_demo_env B a seed ep video_writer f env lg2))"

subsection \<open>Episode ordering (playback_dataset, lines 473-484)\<close>

text \<open>
  \<open>int(s)\<close> on a string, base 10: surrounding whitespace is stripped, one sign is
  allowed, and the digits may be grouped by single underscores. Only ASCII whitespace
  and ASCII digits are covered; anything else is reported as ValueError.
\<close>

definition is_space :: "char \<Rightarrow> bool" where
  "is_space c = (c = CHR '' '' \<or> (9 \<le> (of_char c :: nat) \<and> (of_char c :: nat) \<le> 13)
                 \<or> (28 \<le> (of_char c :: nat) \<and> (of_char c :: nat) \<le> 31))"

definition is_digit :: "char \<Rightarrow> bool" where
  "is_digit c = (48 \<le> (of_char c :: nat) \<and> (of_char c :: nat) \<le> 57)"

definition digit_value :: "char \<Rightarrow> nat" where
  "digit_value c = of_char c - 48"

definition strip :: "string \<Rightarrow> string" where
  "strip s = rev (dropWhile is_space (rev (dropWhile is_space s)))"

fun parse_digits :: "nat \<Rightarrow> bool \<Rightarrow> string \<Rightarrow> nat option" where
  "parse_digits acc prev [] = (if prev then Some acc else None)"
| "parse_digits acc prev (c # cs) =
     (if is_digit c then parse_digits (10 * acc + digit_value c) True cs
      else if c = CHR ''_'' \<and> prev then parse_digits acc False cs
      else None)"

definition py_int :: "string \<Rightarrow> exn + int" where
  "py_int s =
     (case strip s of
        [] \<Rightarrow> Inl ValueError
      | c # cs \<Rightarrow>
          (case (if c = CHR ''-'' then map_option (\<lambda>v. - int v) (parse_digits 0 False cs)
                 else if c = CHR ''+'' then map_option int (parse_digits 0 False cs)
                 else map_option int (parse_digits 0 False (c # cs))) of
             None \<Rightarrow> Inl ValueError
           | Some v \<Rightarrow> Inr v))"

text \<open>
  \<open>np.argsort(keys)\<close>: the indices that sort the keys. numpy's default sort does not
  promise an order among equal keys; the model keeps them in their original order.
\<close>

definition argsort :: "int list \<Rightarrow> nat list" where
  "argsort keys = map snd (sort_key fst (zip keys [0..<length keys]))"

text \<open>Lines 483-484.\<close>

definition order_demos :: "string list \<Rightarrow> exn + string list" where
  "order_demos demos =
     (case collect (map (\<lambda>elem. py_int (drop 5 elem)) demos) of
        Inl e \<Rightarrow> Inl e
      | Inr keys \<Rightarrow> Inr (map (\<lambda>i. demos ! i) (argsort keys)))"

text \<open>Lines 474-484: the episodes of the filter key, or every episode under \<open>data\<close>;
  with neither, \<open>demos\<close> is unbound at line 483.\<close>

definition list_episodes :: "'img hdf5 \<Rightarrow> args \<Rightarrow> 'img event list \<Rightarrow>
    (exn + string list) \<times> 'img event list" where
  "list_episodes f a lg =
     (case args_filter_key a of
        Some key \<Rightarrow>
          (let lg1 = lg @ [Print (''using filter key: '' @ key)] in
           case map_of (h5_mask f) key of
             None \<Rightarrow> (Inl KeyError, lg1)
           | Some demos \<Rightarrow> (order_demos demos, lg1))
      | None \<Rightarrow>
          (case h5_data f of
             Some d \<Rightarrow> (order_demos (map fst d), lg)
           | None \<Rightarrow> (Inl NameError, lg)))"

subsection \<open>Argument checking (playback_dataset, lines 441-465)\<close>

text \<open>\<open>s.split(sep)[0]\<close>: the part of \<open>s\<close> before the first occurrence of \<open>sep\<close>.\<close>

fun before_sep :: "string \<Rightarrow> string \<Rightarrow> string" where
  "before_sep sep [] = []"
| "before_sep sep (c # cs) =
     (if take (length sep) (c # cs) = sep then [] else c # before_sep sep cs)"

definition check_args :: "('e, 'img) backend \<Rightarrow> args \<Rightarrow> 'img event list \<Rightarrow>
    (exn + args) \<times> 'img event list" where
  "check_args B a lg =
     (let write_video = (\<not> args_render a);
          stem = before_sep ''.hdf5'' (args_dataset a);
          a1 = (case args_video_path a of
                  Some vp \<Rightarrow> a
                | None \<Rightarrow>
                    a\<lparr>args_video_path :=
                        Some (if args_use_actions a then stem @ ''_use_actions.mp4''
                              else if args_use_abs_actions a then stem @ ''_use_abs_actions.mp4''
                              else stem @ ''.mp4'')\<rparr>)
      in
      if args_render a1 \<and> write_video then (Inl AssertionError, lg)
      else
      case (case args_render_image_names a1 of
              Some names \<Rightarrow> (Inr a1, lg)
            | None \<Rightarrow>
                (case get_env_metadata_from_dataset B a1 (args_dataset a1) lg of
                   (Inl e, lg1) \<Rightarrow> (Inl e, lg1)
                 | (Inr env_meta, lg1) \<Rightarrow>
                     (Inr (a1\<lparr>args_render_image_names :=
                              Some (map (\<lambda>c. [c]) ''robot0_agentview_center'')\<rparr>), lg1))) of
        (Inl e, lg1) \<Rightarrow> (Inl e, lg1)
      | (Inr a2, lg1) \<Rightarrow>
          if args_render a2 \<and>
             (case args_render_image_names a2 of Some names \<Rightarrow> length names \<noteq> 1 | None \<Rightarrow> True)
          then (Inl AssertionError, lg1)
          else if args_use_obs a2 \<and> \<not> write_video then (Inl AssertionError, lg1)
          else if args_use_obs a2 \<and> (args_use_actions a2 \<or> args_use_abs_actions a2)
          then (Inl AssertionError, lg1)
          else (Inr a2, lg1))"

subsection \<open>Dispatch (playback_dataset, lines 491-506)\<close>

text \<open>
  \<open>proc k ep\<close> stands for \<open>process_demo(args, ep)\<close> on the \<open>k\<close>-th episode of the
  working list. In sequential mode the episodes run in order in one process, and a raise
  leaves the loop. In parallel mode every episode is submitted to the pool and runs in a
  worker of its own, from an empty trace; the parent then reads the results in the order
  in which the futures complete, given by \<open>completed\<close> (indices into the working list),
  and \<open>except Exception\<close> reports a failure and goes on. The result is the parent's
  outcome and trace, and in parallel mode the outcome and trace of every worker.
\<close>

definition report_future :: "(string \<times> exn option \<times> 'img event list) list \<Rightarrow> nat \<Rightarrow>
    'img event list \<Rightarrow> exn option \<times> 'img event list" where
  "report_future futures j lg =
     (case futures ! j of
        (ep, None, w) \<Rightarrow> (None, lg)
      | (ep, Some e, w) \<Rightarrow>
          if is_Exception e then (None, lg @ [ErrorEpisode ep e]) else (Some e, lg))"

definition dispatch :: "(nat \<Rightarrow> string \<Rightarrow> 'img event list \<Rightarrow> exn option \<times> 'img event list) \<Rightarrow>
    int \<Rightarrow> nat list \<Rightarrow> string list \<Rightarrow> 'img event list \<Rightarrow>
    (exn option \<times> 'img event list) \<times> (string \<times> exn option \<times> 'img event list) list" where
  "dispatch proc num_parallel_jobs completed demos lg =
     (if num_parallel_jobs = 1
      then (for_loop (\<lambda>(k, ep). proc k ep) False (enumerate 0 demos) lg, [])
      else if num_parallel_jobs \<le> 0 then ((Some ValueError, lg), [])
      else
        (let futures = map (\<lambda>(k, ep). (ep, proc k ep [])) (enumerate 0 demos)
         in (for_loop (report_future futures) False completed lg, futures)))"

subsection \<open>playback_dataset and the exit status\<close>

text \<open>\<open>xs[:n]\<close> for a Python int \<open>n\<close>.\<close>

definition py_take :: "int \<Rightarrow> 'a list \<Rightarrow> 'a list" where
  "py_take n xs = (if 0 \<le> n then take (nat n) xs else take (length xs - nat (- n)) xs)"

text \<open>Lines 487-489: the optional random subsample.\<close>

definition working_list :: "('e, 'img) backend \<Rightarrow> args \<Rightarrow> string list \<Rightarrow> string list" where
  "working_list B a sorted_demos =
     (case args_n a of
        None \<Rightarrow> sorted_demos
      | Some n \<Rightarrow> py_take n (random_shuffle B sorted_demos))"

definition playback_dataset :: "('e, 'img) backend \<Rightarrow> args \<Rightarrow> (nat \<Rightarrow> nat) \<Rightarrow> nat list \<Rightarrow>
    'img event list \<Rightarrow>
    (exn option \<times> 'img event list) \<times> (string \<times> exn option \<times> 'img event list) list" where
  "playback_dataset B a0 seeds completed lg =
     (case check_args B a0 lg of
        (Inl e, lg1) \<Rightarrow> ((Some e, lg1), [])
      | (Inr a, lg1) \<Rightarrow>
      case h5py_File B (args_dataset a) of
        None \<Rightarrow> ((Some (SystemExit 1), lg1 @ [ErrorOpeningFile (args_dataset a)]), [])
      | Some f \<Rightarrow>
      case list_episodes f a lg1 of
        (Inl e, lg2) \<Rightarrow> ((Some e, lg2), [])
      | (Inr sorted_demos, lg2) \<Rightarrow>
      let demos = working_list B a sorted_demos in
      case dispatch (\<lambda>k ep. process_demo B a (seeds k) ep) (args_num_parallel_jobs a)
             completed demos lg2 of
        ((None, lg3), workers) \<Rightarrow> ((None, lg3 @ [FileClose]), workers)
      | ((Some e, lg3), workers) \<Rightarrow> ((Some e, lg3), workers))"


subsection \<open>A small concrete installation\<close>

text \<open>
  A simulator whose state is a pair of reals: a step adds the sum of the action to the
  first coordinate, restoring a flattened state of length two overwrites both. Images
  are stood for by the name of their camera. The file \<open>demos.hdf5\<close> holds two
  episodes, listed by name as h5py does: \<open>demo_10\<close> is complete, with a recorded state
  sequence that the simulator reproduces up to its third state; \<open>demo_2\<close> has no model.
\<close>

definition sample_apply_call :: "env_call \<Rightarrow> real \<times> real \<Rightarrow> real \<times> real" where
  "sample_apply_call c e =
     (case c of
        SetStateFromFlattened v \<Rightarrow> (case v of [x, y] \<Rightarrow> (x, y) | _ \<Rightarrow> e)
      | EnvStep act \<Rightarrow> (fst e + sum_list act, snd e)
      | _ \<Rightarrow> e)"

definition sample_episode :: "string episode" where
  "sample_episode =
     \<lparr>ep_states = Some [[0, 0], [1, 0], [5, 0], [6, 0]],
      ep_actions = Some [[1], [1], [1], [1]],
      ep_actions_abs = None,
      ep_model_file = Some ''<mujoco/>'',
      ep_meta_attr = None,
      ep_obs = [(''egoview_image'', [''f0'', ''f1'', ''f2'', ''f3'', ''f4''])]\<rparr>"

definition broken_episode :: "string episode" where
  "broken_episode = sample_episode\<lparr>ep_model_file := None\<rparr>"

definition sample_file :: "string hdf5" where
  "sample_file =
     \<lparr>h5_data = Some [(''demo_10'', sample_episode), (''demo_2'', broken_episode)],
      h5_mask = [],
      h5_env_args = Some ''{}''\<rparr>"

definition sample_backend :: "(real \<times> real, string) backend" where
  "sample_backend =
     \<lparr>apply_call = sample_apply_call,
      get_state = (\<lambda>e. [fst e, snd e]),
      sim_render = (\<lambda>e cam h w. cam),
      get_xml = (\<lambda>e. ''<mujoco/>''),
      edit_model_xml = (\<lambda>e xml. xml),
      postprocess_model_xml = (\<lambda>xml. xml),
      robosuite_version_id = 4,
      has_set_attrs_from_ep_meta = False,
      has_set_ep_meta = True,
      has_update_sites = False,
      has_update_state = True,
      json_loads = (\<lambda>raw. Some []),
      robosuite_make = (\<lambda>env_meta use_abs offscreen. (0, 0)),
      make_ik_indicator_invisible = (\<lambda>xml. xml),
      h5py_File = (\<lambda>path. if path = ''demos.hdf5'' then Some sample_file else None),
      expanduser = (\<lambda>path. path),
      random_shuffle = rev\<rparr>"

definition sample_args :: args where
  "sample_args =
     \<lparr>args_dataset = ''demos.hdf5'',
      args_filter_key = None,
      args_n = None,
      args_num_parallel_jobs = 1,
      args_num_frames = None,
      args_use_obs = False,
      args_use_actions = False,
      args_use_abs_actions = False,
      args_render = False,
      args_video_path = Some ''demos.mp4'',
      args_video_skip = 1,
      args_render_image_names = Some [''egoview''],
      args_render_height = 512,
      args_render_width = 512,
      args_first = False,
      args_extend_states = False,
      args_verbose = False,
      args_use_current_env_model = False\<rparr>"

subsection \<open>Episode identifiers of the form demo_<n>\<close>



subsection \<open>Reading a trace\<close>

text \<open>
  The kinds of event the properties count: a control step of the simulator, a reload
  of the scene from an XML string, a restore of a flattened state, a frame appended to
  the video, and a divergence warning.
\<close>

fun is_step :: "'img event \<Rightarrow> bool" where
  "is_step (Env (EnvStep act)) = True"
| "is_step ev = False"


fun is_restore :: "'img event \<Rightarrow> bool" where
  "is_restore (Env (SetStateFromFlattened v)) = True"
| "is_restore ev = False"

fun is_frame :: "'img event \<Rightarrow> bool" where
  "is_frame (AppendData imgs) = True"
| "is_frame ev = False"

fun is_warning :: "'img event \<Rightarrow> bool" where
  "is_warning (WarnDiverged err i) = True"
| "is_warning ev = False"

section \<open>Properties\<close>

subsection \<open>Window selection\<close>

lemma length_py_range: "length (py_range a b) = nat (b - a)"
  by (simp add: py_range_def)

lemma set_py_range: "set (py_range a b) = {i. a \<le> i \<and> i < b}"
  by (auto simp: py_range_def)

lemma select_window_Some:
  "select_window (Some nf) L seed =
     Inr (int seed mod (L - min nf L + 1), int seed mod (L - min nf L + 1) + min nf L)"
  by (simp add: select_window_def randrange_def)

text \<open>
  C9. For a trajectory of length \<open>L \<ge> 1\<close> and a configured \<open>num_frames = w \<ge> L\<close>,
  window selection does not raise: the window length is clamped to \<open>min w L = L\<close>, the
  start index is 0 whatever the random draw, and the window is every index of the
  trajectory in order.
\<close>

theorem window_clamped_to_trajectory:
  fixes L :: nat and w :: int
  assumes "1 \<le> L" and "int L \<le> w"
  shows "select_window (Some w) (int L) seed = Inr (0, int L)
       \<and> min w (int L) = int L
       \<and> py_range 0 (int L) = map int [0..<L]"
proof -
  have m: "min w (int L) = int L" using assms by simp
  have "py_range 0 (int L) = map int [0..<L]"
    by (rule nth_equalityI) (simp_all add: length_py_range py_range_def)
  then show ?thesis by (simp add: select_window_Some m)
qed

theorem window_clamped_to_trajectory_witness:
  "(1::nat) \<le> 3 \<and> int 3 \<le> (10::int)
   \<and> select_window (Some 10) (int 3) 7 = Inr (0, 3)
   \<and> py_range 0 (int 3) = [0, 1, 2]"
  using window_clamped_to_trajectory [of 3 10 7] by (simp add: upt_rec)

subsection \<open>Unfolding the embedding on concrete inputs\<close>

lemmas playback_defs = process_demo_def process_demo_env_def playback_trajectory_with_env_def
  play_frame_def state_step_def action_step_def reset_to_def reset_to_model_def announce_def
  on_screen_def video_frame_def select_window_def randrange_def py_range_def py_index_def
  make_env_from_args_def get_env_metadata_from_dataset_def h5_episode_def extend_states_def
  emit_def call_def sample_backend_def sample_args_def sample_file_def sample_episode_def
  broken_episode_def sample_apply_call_def np_all_equal_def np_norm_diff_def np_broadcast_def
  playback_trajectory_with_obs_def obs_body_def obs_frame_def obs_images_def
  playback_dataset_def check_args_def list_episodes_def working_list_def py_take_def

subsection \<open>The loop combinator\<close>

lemma for_loop_append:
  "for_loop body False (xs @ ys) s =
     (case for_loop body False xs s of
        (Some e, s') \<Rightarrow> (Some e, s')
      | (None, s') \<Rightarrow> for_loop body False ys s')"
  by (induction xs arbitrary: s) (auto split: prod.splits option.splits)

lemma for_loop_stops_at_raise:
  assumes "for_loop body False xs s = (None, s1)" and "body x s1 = (Some e, s2)"
  shows "for_loop body False (xs @ x # ys) s = (Some e, s2)"
  using assms by (simp add: for_loop_append)

subsection \<open>Dispatch\<close>

lemma report_loop:
  assumes "\<forall>j \<in> set completed. \<forall>ep e w. futures ! j = (ep, Some e, w) \<longrightarrow> is_Exception e"
  shows "for_loop (report_future futures) False completed lg =
           (None, lg @ concat (map (\<lambda>j. case futures ! j of
                                            (ep, Some e, w) \<Rightarrow> [ErrorEpisode ep e]
                                          | (ep, None, w) \<Rightarrow> []) completed))"
  using assms
proof (induction completed arbitrary: lg)
  case Nil
  then show ?case by simp
next
  case (Cons j js)
  obtain ep r w where f: "futures ! j = (ep, r, w)" by (cases "futures ! j") auto
  show ?case
  proof (cases r)
    case None
    with f Cons show ?thesis by (simp add: report_future_def)
  next
    case (Some e)
    with f Cons.prems have "is_Exception e" by simp
    with f Some Cons show ?thesis by (simp add: report_future_def)
  qed
qed

lemma concat_single:
  "concat (map (\<lambda>k. if k = j then [x] else []) xs) = replicate (count (mset xs) j) x"
  by (induction xs) auto

lemma futures_nth:
  assumes "k < length demos"
  shows "map (\<lambda>(k, ep). (ep, proc k ep [])) (enumerate 0 demos) ! k
           = (demos ! k, proc k (demos ! k) [])"
  using assms by (simp add: nth_enumerate_eq)

lemma dispatch_parallel_one_failure:
  assumes jobs: "1 < jobs"
    and perm: "mset completed = mset [0..<length demos]"
    and j: "j < length demos"
    and fail: "proc j (demos ! j) [] = (Some e, w)" and exc: "is_Exception e"
    and others: "\<forall>k < length demos. k \<noteq> j \<longrightarrow> fst (proc k (demos ! k) []) = None"
  shows "dispatch proc jobs completed demos lg =
           ((None, lg @ [ErrorEpisode (demos ! j) e]),
            map (\<lambda>(k, ep). (ep, proc k ep [])) (enumerate 0 demos))
       \<and> length (filter (\<lambda>(ep, r, w). r = None)
                   (map (\<lambda>(k, ep). (ep, proc k ep [])) (enumerate 0 demos))) = length demos - 1"
proof -
  define futures where "futures = map (\<lambda>(k, ep). (ep, proc k ep [])) (enumerate 0 demos)"
  have len: "length futures = length demos" by (simp add: futures_def)
  have nth: "futures ! k = (demos ! k, proc k (demos ! k) [])" if "k < length demos" for k
    unfolding futures_def using that by (rule futures_nth)
  have nth_j: "futures ! j = (demos ! j, Some e, w)" using nth [OF j] fail by simp
  have nth_other: "\<exists>w'. futures ! k = (demos ! k, None, w')"
    if "k < length demos" "k \<noteq> j" for k
  proof -
    from others that have "fst (proc k (demos ! k) []) = None" by simp
    then obtain w' where "proc k (demos ! k) [] = (None, w')"
      by (cases "proc k (demos ! k) []") auto
    with nth [OF that(1)] show ?thesis by simp
  qed
  have inrange: "k < length demos" if "k \<in> set completed" for k
  proof -
    from that have "k \<in># mset completed" by simp
    then have "k \<in># mset [0..<length demos]" using perm by simp
    then show ?thesis by simp
  qed
  have one: "(case futures ! k of
                (ep, Some e, w) \<Rightarrow> [ErrorEpisode ep e :: 'a event]
              | (ep, None, w) \<Rightarrow> [])
             = (if k = j then [ErrorEpisode (demos ! j) e] else [])"
    if "k < length demos" for k
  proof (cases "k = j")
    case True
    then show ?thesis by (simp add: nth_j)
  next
    case False
    from nth_other [OF that False] obtain w' where "futures ! k = (demos ! k, None, w')" ..
    with False show ?thesis by simp
  qed
  have ok: "\<forall>k \<in> set completed. \<forall>ep e' w'. futures ! k = (ep, Some e', w') \<longrightarrow> is_Exception e'"
  proof (intro ballI allI impI)
    fix k ep e' w' assume k: "k \<in> set completed" and eq: "futures ! k = (ep, Some e', w')"
    from k have lt: "k < length demos" by (rule inrange)
    have "k = j"
    proof (rule ccontr)
      assume "k \<noteq> j"
      from nth_other [OF lt this] eq show False by auto
    qed
    with eq nth_j have "e' = e" by simp
    with exc show "is_Exception e'" by simp
  qed
  have "concat (map (\<lambda>k. case futures ! k of
                            (ep, Some e, w) \<Rightarrow> [ErrorEpisode ep e :: 'a event]
                          | (ep, None, w) \<Rightarrow> []) completed)
          = concat (map (\<lambda>k. if k = j then [ErrorEpisode (demos ! j) e] else []) completed)"
    using inrange one by (intro arg_cong [where f = concat] map_cong) auto
  also have "\<dots> = replicate (count (mset completed) j) (ErrorEpisode (demos ! j) e)"
    by (rule concat_single)
  also have "count (mset completed) j = 1"
    using perm j by (simp add: count_mset)
  finally have rep: "concat (map (\<lambda>k. case futures ! k of
                            (ep, Some e, w) \<Rightarrow> [ErrorEpisode ep e :: 'a event]
                          | (ep, None, w) \<Rightarrow> []) completed) = [ErrorEpisode (demos ! j) e]"
    by simp
  have "for_loop (report_future futures) False completed lg
          = (None, lg @ [ErrorEpisode (demos ! j) e])"
    using report_loop [OF ok, of lg] rep by simp
  with jobs have first: "dispatch proc jobs completed demos lg =
           ((None, lg @ [ErrorEpisode (demos ! j) e]), futures)"
    by (simp add: dispatch_def Let_def futures_def)
  have "{k. k < length futures \<and> (\<lambda>(ep, r, w). r = None) (futures ! k)}
               = {..<length demos} - {j}"
  proof (rule set_eqI)
    fix k
    show "k \<in> {k. k < length futures \<and> (\<lambda>(ep, r, w). r = None) (futures ! k)}
            \<longleftrightarrow> k \<in> {..<length demos} - {j}"
    proof (cases "k < length demos")
      case False
      then show ?thesis by (simp add: len)
    next
      case lt: True
      show ?thesis
      proof (cases "k = j")
        case True
        with j show ?thesis by (simp add: nth_j len)
      next
        case False
        from nth_other [OF lt False] obtain w' where "futures ! k = (demos ! k, None, w')" ..
        with False lt show ?thesis by (simp add: len)
      qed
    qed
  qed
  then have "length (filter (\<lambda>(ep, r, w). r = None) futures) = card ({..<length demos} - {j})"
    by (simp add: length_filter_conv_card)
  also have "\<dots> = length demos - 1"
    using j by simp
  finally have second: "length (filter (\<lambda>(ep, r, w). r = None) futures) = length demos - 1" .
  from first second show ?thesis unfolding futures_def by simp
qed

lemma dispatch_sequential_raise:
  assumes "dispatch proc 1 completed pre lg = ((None, lg1), [])"
    and "proc (length pre) ep lg1 = (Some e, lg2)"
  shows "dispatch proc 1 completed' (pre @ ep # post) lg = ((Some e, lg2), [])"
proof -
  from assms(1) have pre: "for_loop (\<lambda>(k, ep). proc k ep) False (enumerate 0 pre) lg = (None, lg1)"
    by (simp add: dispatch_def)
  have split: "enumerate 0 (pre @ ep # post)
                 = enumerate 0 pre @ (length pre, ep) # enumerate (Suc (length pre)) post"
    by (simp add: enumerate_append_eq)
  have "for_loop (\<lambda>(k, ep). proc k ep) False (enumerate 0 (pre @ ep # post)) lg = (Some e, lg2)"
    unfolding split using pre assms(2) by (intro for_loop_stops_at_raise) auto
  then show ?thesis by (simp add: dispatch_def)
qed

text \<open>
  C6. In parallel dispatch (more than one job), when the worker of exactly one episode
  raises an exception of class Exception and every other worker returns, the dispatcher
  itself returns normally whatever the order of completion, its trace gains exactly one
  error report, which names the failed episode, every episode was run in a worker, and
  all but one of the workers returned. In sequential dispatch (one job) nothing catches:
  when the episodes before one return and that one raises, the dispatcher raises the
  same exception with the trace as that episode left it, whatever episodes come after,
  so these are never run.
\<close>

theorem dispatch_failure_isolation:
  "(1 < jobs \<and> mset completed = mset [0..<length demos] \<and> j < length demos
      \<and> proc j (demos ! j) [] = (Some e, w) \<and> is_Exception e
      \<and> (\<forall>k < length demos. k \<noteq> j \<longrightarrow> fst (proc k (demos ! k) []) = None)
    \<longrightarrow> dispatch proc jobs completed demos lg =
          ((None, lg @ [ErrorEpisode (demos ! j) e]),
           map (\<lambda>(k, ep). (ep, proc k ep [])) (enumerate 0 demos))
      \<and> length (filter (\<lambda>(ep, r, w). r = None)
                  (map (\<lambda>(k, ep). (ep, proc k ep [])) (enumerate 0 demos))) = length demos - 1)
   \<and> (dispatch proc 1 completed pre lg = ((None, lg1), [])
      \<and> proc (length pre) ep lg1 = (Some e', lg2)
    \<longrightarrow> dispatch proc 1 completed (pre @ ep # post) lg = ((Some e', lg2), []))"
proof (intro conjI impI)
  assume h: "1 < jobs \<and> mset completed = mset [0..<length demos] \<and> j < length demos
      \<and> proc j (demos ! j) [] = (Some e, w) \<and> is_Exception e
      \<and> (\<forall>k < length demos. k \<noteq> j \<longrightarrow> fst (proc k (demos ! k) []) = None)"
  then have "dispatch proc jobs completed demos lg =
           ((None, lg @ [ErrorEpisode (demos ! j) e]),
            map (\<lambda>(k, ep). (ep, proc k ep [])) (enumerate 0 demos))
       \<and> length (filter (\<lambda>(ep, r, w). r = None)
                   (map (\<lambda>(k, ep). (ep, proc k ep [])) (enumerate 0 demos))) = length demos - 1"
    by (intro dispatch_parallel_one_failure) auto
  then show "dispatch proc jobs completed demos lg =
           ((None, lg @ [ErrorEpisode (demos ! j) e]),
            map (\<lambda>(k, ep). (ep, proc k ep [])) (enumerate 0 demos))"
    and "length (filter (\<lambda>(ep, r, w). r = None)
                   (map (\<lambda>(k, ep). (ep, proc k ep [])) (enumerate 0 demos))) = length demos - 1"
    by simp_all
next
  assume "dispatch proc 1 completed pre lg = ((None, lg1), [])
      \<and> proc (length pre) ep lg1 = (Some e', lg2)"
  then show "dispatch proc 1 completed (pre @ ep # post) lg = ((Some e', lg2), [])"
    by (intro dispatch_sequential_raise) auto
qed

theorem dispatch_failure_isolation_witness:
  "dispatch (\<lambda>k. process_demo sample_backend sample_args 0) 2 [1, 0] [''demo_2'', ''demo_10''] []
     = ((None, [ErrorEpisode ''demo_2'' KeyError]),
        map (\<lambda>(k, ep). (ep, process_demo sample_backend sample_args 0 ep []))
          (enumerate 0 [''demo_2'', ''demo_10'']))
   \<and> length (filter (\<lambda>(ep, r, w). r = None)
        (map (\<lambda>(k, ep). (ep, process_demo sample_backend sample_args 0 ep []))
          (enumerate 0 [''demo_2'', ''demo_10'']))) = 1
   \<and> dispatch (\<lambda>k. process_demo sample_backend sample_args 0) 1 [1, 0] [''demo_2'', ''demo_10''] []
     = ((Some KeyError,
         [Print ''Playing back episode: demo_2'', GetWriter ''demos_demo_2.mp4'', FileClose]), [])"
proof -
  let ?proc = "\<lambda>k::nat. process_demo sample_backend sample_args 0"
  let ?w = "[Print ''Playing back episode: demo_2'', GetWriter ''demos_demo_2.mp4'', FileClose]"
  have bad: "?proc 0 ''demo_2'' [] = (Some KeyError, ?w)"
    by (simp add: playback_defs)
  have good: "fst (?proc 1 ''demo_10'' []) = None"
    by (simp add: playback_defs upto.simps)
  have others: "\<forall>k < length [''demo_2'', ''demo_10'']. k \<noteq> 0 \<longrightarrow>
                   fst (?proc k ([''demo_2'', ''demo_10''] ! k) []) = None"
    using good by (auto simp: less_Suc_eq)
  have perm: "mset [1, 0] = mset [0..<length [''demo_2'', ''demo_10'']]"
    by (simp add: upt_rec)
  have empty: "dispatch ?proc 1 [1, 0] [] [] = ((None, []), [])"
    by (simp add: dispatch_def)
  from dispatch_failure_isolation [where jobs = 2 and completed = "[1, 0]"
      and demos = "[''demo_2'', ''demo_10'']" and j = 0 and proc = ?proc and e = KeyError
      and w = ?w and lg = "[]" and pre = "[]" and ?lg1.0 = "[]" and ep = "''demo_2''"
      and e' = KeyError and ?lg2.0 = ?w and post = "[''demo_10'']"]
    bad others perm empty
  show ?thesis by simp
qed

subsection \<open>Exit status\<close>








subsection \<open>On-screen rendering and video output\<close>




subsection \<open>Episode ordering\<close>





















subsection \<open>State extension under action replay\<close>

lemma reset_to_model_steps:
  "filter is_step (out (snd (reset_to_model B model meta s))) = filter is_step (out s)"
  by (simp add: reset_to_model_def call_def Let_def split: option.splits)

lemma reset_to_steps:
  "filter is_step (out (snd (reset_to B st s))) = filter is_step (out s)"
proof (cases "sd_model st")
  case None
  then show ?thesis
    by (simp add: reset_to_def call_def Let_def split: option.splits)
next
  case (Some model)
  obtain r s1 where m: "reset_to_model B model (sd_ep_meta st) s = (r, s1)"
    by (cases "reset_to_model B model (sd_ep_meta st) s") auto
  have "filter is_step (out s1) = filter is_step (out s)"
    using reset_to_model_steps [of B model "sd_ep_meta st" s] m by simp
  with Some m show ?thesis
    by (cases r) (simp_all add: reset_to_def call_def Let_def split: option.splits)
qed

lemma announce_steps:
  "filter is_step (out (snd (announce B st verbose s))) = filter is_step (out s)"
  by (simp add: announce_def emit_def Let_def split: option.splits)










subsection \<open>What each part of a frame adds to the trace\<close>

lemma reset_to_model_quiet:
  assumes "\<forall>c. \<not> K (Env c)"
  shows "filter K (out (snd (reset_to_model B model meta s))) = filter K (out s)"
  using assms by (simp add: reset_to_model_def call_def Let_def split: option.splits)

lemma reset_to_quiet:
  assumes "\<forall>c. \<not> K (Env c)"
  shows "filter K (out (snd (reset_to B st s))) = filter K (out s)"
proof (cases "sd_model st")
  case None
  with assms show ?thesis
    by (simp add: reset_to_def call_def Let_def split: option.splits)
next
  case (Some model)
  obtain r s1 where m: "reset_to_model B model (sd_ep_meta st) s = (r, s1)"
    by (cases "reset_to_model B model (sd_ep_meta st) s") auto
  have "filter K (out s1) = filter K (out s)"
    using reset_to_model_quiet [OF assms, of B model "sd_ep_meta st" s] m by simp
  with Some m assms show ?thesis
    by (cases r) (simp_all add: reset_to_def call_def Let_def split: option.splits)
qed

lemma state_step_quiet:
  assumes "\<forall>c. \<not> K (Env c)"
  shows "filter K (out (snd (state_step B states i s))) = filter K (out s)"
  by (simp add: state_step_def reset_to_quiet [OF assms] split: sum.splits)

lemma action_step_quiet:
  assumes "\<forall>c. \<not> K (Env c)" and "\<forall>err j. \<not> K (WarnDiverged err j)"
  shows "filter K (out (snd (action_step B states acts verbose L i s))) = filter K (out s)"
  using assms
  by (simp add: action_step_def call_def emit_def Let_def split: sum.splits)

lemma on_screen_quiet:
  assumes "\<forall>c. \<not> K (Env c)"
  shows "filter K (out (on_screen B s)) = filter K (out s)"
  using assms by (simp add: on_screen_def call_def Let_def)

lemma video_frame_adds:
  assumes "video_frame B a cams s = (None, s')"
  shows "length (filter is_frame (out s')) = Suc (length (filter is_frame (out s)))"
  using assms by (auto simp: video_frame_def emit_def split: option.splits if_splits)

lemma play_frame_frames:
  assumes "k \<noteq> 0"
    and "play_frame B a states actions render (Some wr) k cams verbose L i (c, s) = (None, (c1, s1))"
  shows "c1 = c + 1
       \<and> length (filter is_frame (out s1))
           = length (filter is_frame (out s)) + (if c mod k = 0 then 1 else 0)"
proof -
  define replay where "replay = (case actions of
      Some acts \<Rightarrow> action_step B states acts verbose L i s
    | None \<Rightarrow> state_step B states i s)"
  obtain r sa where rp: "replay = (r, sa)" by (cases replay) auto
  have q: "filter is_frame (out sa) = filter is_frame (out s)"
  proof (cases actions)
    case None
    with rp state_step_quiet [of is_frame B states i s] show ?thesis
      by (simp add: replay_def)
  next
    case (Some acts)
    with rp action_step_quiet [of is_frame B states acts verbose L i s] show ?thesis
      by (simp add: replay_def)
  qed
  define sb where "sb = (if render then on_screen B sa else sa)"
  have qb: "filter is_frame (out sb) = filter is_frame (out s)"
    using q on_screen_quiet [of is_frame B sa] by (simp add: sb_def)
  have unfold: "play_frame B a states actions render (Some wr) k cams verbose L i (c, s) =
      (case r of
         Some e \<Rightarrow> (Some e, (c, sa))
       | None \<Rightarrow>
           (case (if c mod k = 0 then video_frame B a cams sb else (None, sb)) of
              (Some e, s3) \<Rightarrow> (Some e, (c, s3))
            | (None, s3) \<Rightarrow> (None, (c + 1, s3))))"
    using rp assms(1) unfolding replay_def sb_def
    by (cases r) (simp_all add: play_frame_def Let_def)
  from assms(2) unfold have r: "r = None" by (cases r) auto
  show ?thesis
  proof (cases "c mod k = 0")
    case True
    with assms(2) unfold r have v: "video_frame B a cams sb = (None, s1)" and "c1 = c + 1"
      by (auto split: prod.splits option.splits)
    with video_frame_adds [OF v] qb True show ?thesis by simp
  next
    case False
    with assms(2) unfold r have "s1 = sb" and "c1 = c + 1" by auto
    with qb False show ?thesis by simp
  qed
qed

lemma obs_body_frames:
  assumes "k \<noteq> 0"
    and "obs_body grp vw k names i (c, lg) = (None, (c1, lg1))"
  shows "c1 = c + 1
       \<and> length (filter is_frame lg1) = length (filter is_frame lg) + (if c mod k = 0 then 1 else 0)"
  using assms
  by (auto simp: obs_body_def split: if_splits sum.splits option.splits)

subsection \<open>Counting over the loop\<close>

lemma for_loop_counter:
  assumes step: "\<And>x c s c1 s1. body x (c, s) = (None, (c1, s1)) \<Longrightarrow>
                   c1 = c + 1 \<and> F s1 = F s + (if c mod k = 0 then 1 else (0::nat))"
    and run: "for_loop body False xs (c, s) = (None, (c', s'))"
  shows "c' = c + int (length xs)
       \<and> F s' = F s + length (filter (\<lambda>j. (c + int j) mod k = 0) [0..<length xs])"
  using run
proof (induction xs arbitrary: c s)
  case Nil
  then show ?case by simp
next
  case (Cons x xs)
  obtain r c1 s1 where b: "body x (c, s) = (r, (c1, s1))"
    by (cases "body x (c, s)") auto
  with Cons.prems have r: "r = None" by (cases r) auto
  with b Cons.prems have rest: "for_loop body False xs (c1, s1) = (None, (c', s'))" by simp
  from step b r have c1: "c1 = c + 1"
    and f1: "F s1 = F s + (if c mod k = 0 then 1 else 0)" by auto
  from Cons.IH [OF rest] have c': "c' = c1 + int (length xs)"
    and f': "F s' = F s1 + length (filter (\<lambda>j. (c1 + int j) mod k = 0) [0..<length xs])"
    by auto
  have shift: "filter (\<lambda>j. (c + int j) mod k = 0) [0..<length (x # xs)]
      = (if c mod k = 0 then [0] else [])
        @ map Suc (filter (\<lambda>j. (c1 + int j) mod k = 0) [0..<length xs])"
    unfolding c1
    by (simp add: upt_conv_Cons map_Suc_upt [symmetric] filter_map comp_def add.assoc
          del: upt_Suc)
  show ?case
    unfolding shift using c1 c' f1 f' by simp
qed

lemma round_up_div:
  fixes k :: nat
  assumes "0 < k"
  shows "(n + k - 1) div k = n div k + (if n mod k = 0 then 0 else 1)"
proof -
  define q where "q = n div k"
  define r where "r = n mod k"
  have n: "n = k * q + r" and r: "r < k" using assms by (simp_all add: q_def r_def)
  show ?thesis
  proof (cases "r = 0")
    case True
    have "(n + k - 1) div k = q"
    proof (rule div_nat_eqI)
      show "k * q \<le> n + k - 1" using n assms by simp
      show "n + k - 1 < k * Suc q" using n True assms by simp
    qed
    with True show ?thesis by (simp add: q_def r_def)
  next
    case False
    have "(n + k - 1) div k = Suc q"
    proof (rule div_nat_eqI)
      show "k * Suc q \<le> n + k - 1" using n False by simp
      show "n + k - 1 < k * Suc (Suc q)" using n r by simp
    qed
    with False show ?thesis by (simp add: q_def r_def)
  qed
qed

lemma multiples_below:
  fixes k :: nat
  assumes "0 < k"
  shows "length (filter (\<lambda>j. j mod k = 0) [0..<n]) = (n + k - 1) div k"
proof (induction n)
  case 0
  with assms show ?case by simp
next
  case (Suc n)
  have "(Suc n + k - 1) div k = (n + k) div k" by simp
  also have "\<dots> = n div k + 1" using assms by simp
  also have "\<dots> = (n + k - 1) div k + (if n mod k = 0 then 1 else 0)"
    by (subst round_up_div [OF assms]) simp
  finally show ?case using Suc by simp
qed

lemma ceiling_div:
  fixes k :: nat
  assumes "0 < k"
  shows "\<lceil>real n / real k\<rceil> = int ((n + k - 1) div k)"
proof -
  have k: "int k \<noteq> 0" using assms by simp
  have "\<lceil>real n / real k\<rceil> = \<lceil>real_of_int (int n) / real_of_int (int k)\<rceil>" by simp
  also have "\<dots> = - (- int n div int k)" by (rule ceiling_divide_eq_div)
  also have "\<dots> = (if int n mod int k = 0 then int n div int k else int n div int k + 1)"
    by (simp add: zdiv_zminus1_eq_if [OF k])
  also have "\<dots> = int (n div k + (if n mod k = 0 then 0 else 1))"
    by (simp flip: of_nat_mod of_nat_div)
  finally show ?thesis by (simp only: round_up_div [OF assms])
qed

lemma announce_quiet:
  assumes "\<forall>p. \<not> K (Print p)"
  shows "filter K (out (snd (announce B st verbose s))) = filter K (out s)"
  using assms by (simp add: announce_def emit_def Let_def split: option.splits)

lemma multiples_int:
  fixes k :: int
  assumes "1 \<le> k"
  shows "int (length (filter (\<lambda>j. (0 + int j) mod k = 0) [0..<n])) = \<lceil>real n / real_of_int k\<rceil>"
proof -
  define K where "K = nat k"
  have K: "0 < K" and k: "k = int K" using assms by (simp_all add: K_def)
  have "(\<lambda>j. (0 + int j) mod k = 0) = (\<lambda>j. j mod K = 0)"
    unfolding k by (simp flip: of_nat_mod)
  then have "length (filter (\<lambda>j. (0 + int j) mod k = 0) [0..<n]) = (n + K - 1) div K"
    using multiples_below [OF K, of n] by simp
  moreover have "\<lceil>real n / real_of_int k\<rceil> = int ((n + K - 1) div K)"
    unfolding k using ceiling_div [OF K, of n] by simp
  ultimately show ?thesis by simp
qed

lemma env_loop_frames:
  assumes k: "1 \<le> k"
    and run: "for_loop (play_frame B a states actions render (Some wr) k cams verbose L)
                False xs (0, s) = (None, (c', s'))"
  shows "c' = int (length xs)
       \<and> int (length (filter is_frame (out s')))
           = int (length (filter is_frame (out s))) + \<lceil>real (length xs) / real_of_int k\<rceil>"
proof -
  have k0: "k \<noteq> 0" using k by simp
  have "c' = 0 + int (length xs)
       \<and> length (filter is_frame (out s')) = length (filter is_frame (out s))
           + length (filter (\<lambda>j. (0 + int j) mod k = 0) [0..<length xs])"
    using run
    by (rule for_loop_counter [where F = "\<lambda>s. length (filter is_frame (out s))", rotated])
       (rule play_frame_frames [OF k0])
  then show ?thesis using multiples_int [OF k, of "length xs"] by simp
qed

lemma obs_loop_frames:
  assumes k: "1 \<le> k"
    and run: "for_loop (obs_body grp vw k names) False xs (0, lg) = (None, (c', lg'))"
  shows "c' = int (length xs)
       \<and> int (length (filter is_frame lg'))
           = int (length (filter is_frame lg)) + \<lceil>real (length xs) / real_of_int k\<rceil>"
proof -
  have k0: "k \<noteq> 0" using k by simp
  have "c' = 0 + int (length xs)
       \<and> length (filter is_frame lg') = length (filter is_frame lg)
           + length (filter (\<lambda>j. (0 + int j) mod k = 0) [0..<length xs])"
    using run
    by (rule for_loop_counter [where F = "\<lambda>lg. length (filter is_frame lg)", rotated])
       (rule obs_body_frames [OF k0])
  then show ?thesis using multiples_int [OF k, of "length xs"] by simp
qed

lemma playback_env_frames:
  assumes k: "1 \<le> k"
    and run: "playback_trajectory_with_env B a init states actions render (Some wr) k cams
                False verbose seed s = (None, s')"
  shows "\<exists>start_frame end_frame.
           select_window (args_num_frames a) (int (length states)) seed = Inr (start_frame, end_frame)
         \<and> int (length (filter is_frame (out s')))
             = int (length (filter is_frame (out s)))
               + \<lceil>real (length (py_range start_frame end_frame)) / real_of_int k\<rceil>"
proof -
  obtain r1 s1 where a1: "announce B init verbose s = (r1, s1)"
    by (cases "announce B init verbose s") auto
  obtain r2 s2 where a2: "reset_to B init s1 = (r2, s2)"
    by (cases "reset_to B init s1") auto
  have f1: "filter is_frame (out s1) = filter is_frame (out s)"
    using announce_quiet [of is_frame B init verbose s] a1 by simp
  have f2: "filter is_frame (out s2) = filter is_frame (out s1)"
    using reset_to_quiet [of is_frame B init s1] a2 by simp
  from run have nr: "\<not> render" by (auto simp: playback_trajectory_with_env_def)
  from run nr a1 have r1: "r1 = None"
    by (cases r1) (auto simp: playback_trajectory_with_env_def)
  from run nr a1 a2 r1 have r2: "r2 = None"
    by (cases r2) (auto simp: playback_trajectory_with_env_def)
  define s3 where "s3 = emit (Print ''Running episode...'') s2"
  have f3: "filter is_frame (out s3) = filter is_frame (out s)"
    using f1 f2 by (simp add: s3_def emit_def)
  obtain w where w: "select_window (args_num_frames a) (int (length states)) seed = w" by simp
  from run nr a1 a2 r1 r2 w obtain start_frame end_frame where
    win: "w = Inr (start_frame, end_frame)"
    by (cases w) (auto simp: playback_trajectory_with_env_def Let_def split: if_splits)
  define loop where "loop = for_loop (play_frame B a states actions render (Some wr) k cams
      verbose (int (length states))) False (py_range start_frame end_frame) (0, s3)"
  obtain r c' s4 where l: "loop = (r, (c', s4))" by (cases loop) auto
  from run nr a1 a2 r1 r2 w win l have "r = None \<and> s4 = s'"
    unfolding loop_def s3_def
    by (cases r) (auto simp: playback_trajectory_with_env_def Let_def split: if_splits)
  with l have "loop = (None, (c', s'))" by simp
  from env_loop_frames [OF k this [unfolded loop_def]] f3 w win
  show ?thesis by simp
qed

lemma playback_obs_frames:
  assumes k: "1 \<le> k"
    and run: "playback_trajectory_with_obs grp (Some wr) k (Some names) False lg = (None, lg')"
    and n0: "py_index names 0 = Inr name0" and im: "obs_images grp name0 = Inr imgs0"
  shows "int (length (filter is_frame lg'))
           = int (length (filter is_frame lg)) + \<lceil>real (length imgs0) / real_of_int k\<rceil>"
proof -
  define loop where "loop = for_loop (obs_body grp (Some wr) k names) False
      (py_range 0 (int (length imgs0))) (0, lg)"
  obtain r c' lg2 where l: "loop = (r, (c', lg2))" by (cases loop) auto
  from run n0 im l have "r = None \<and> lg2 = lg'"
    unfolding loop_def by (simp add: playback_trajectory_with_obs_def)
  with l have "loop = (None, (c', lg'))" by simp
  from obs_loop_frames [OF k this [unfolded loop_def]]
  show ?thesis by (simp add: length_py_range)
qed

text \<open>
  C4. With a sampling interval \<open>video_skip = k \<ge> 1\<close>, a video writer and first-only
  mode off: an iteration that starts with \<open>video_count = c\<close> and does not raise adds one
  frame when \<open>k\<close> divides \<open>c\<close> and none otherwise, and leaves \<open>video_count = c + 1\<close>;
  the counter starts at 0, so it is the zero-based number of the iteration. A loop over
  \<open>n\<close> indices that does not raise therefore appends \<open>\<lceil>n / k\<rceil>\<close> frames. So a run of
  \<open>playback_trajectory_with_env\<close> that returns has appended \<open>\<lceil>L / k\<rceil>\<close> frames for its
  window of length \<open>L\<close>, and a run of \<open>playback_trajectory_with_obs\<close> that returns has
  appended \<open>\<lceil>L / k\<rceil>\<close> frames for its \<open>L\<close> stored images.
\<close>

theorem frames_written_every_kth:
  assumes "1 \<le> k"
  shows "(play_frame B a states actions render (Some wr) k cams verbose L i (c, s) = (None, (c1, s1))
          \<longrightarrow> c1 = c + 1
            \<and> length (filter is_frame (out s1))
                = length (filter is_frame (out s)) + (if c mod k = 0 then 1 else 0))
       \<and> (for_loop (play_frame B a states actions render (Some wr) k cams verbose L)
             False xs (0, s) = (None, (c', s'))
          \<longrightarrow> c' = int (length xs)
            \<and> int (length (filter is_frame (out s')))
                = int (length (filter is_frame (out s))) + \<lceil>real (length xs) / real_of_int k\<rceil>)
       \<and> (playback_trajectory_with_env B a init states actions render (Some wr) k cams
             False verbose seed s = (None, s2)
          \<longrightarrow> (\<exists>start_frame end_frame.
                 select_window (args_num_frames a) (int (length states)) seed
                   = Inr (start_frame, end_frame)
               \<and> int (length (filter is_frame (out s2)))
                   = int (length (filter is_frame (out s)))
                     + \<lceil>real (length (py_range start_frame end_frame)) / real_of_int k\<rceil>))
       \<and> (obs_body grp vw k names i (c, lg) = (None, (d1, lg1))
          \<longrightarrow> d1 = c + 1
            \<and> length (filter is_frame lg1)
                = length (filter is_frame lg) + (if c mod k = 0 then 1 else 0))
       \<and> (playback_trajectory_with_obs grp (Some wr) k (Some names) False lg = (None, lg2)
            \<and> py_index names 0 = Inr name0 \<and> obs_images grp name0 = Inr imgs0
          \<longrightarrow> int (length (filter is_frame lg2))
                = int (length (filter is_frame lg)) + \<lceil>real (length imgs0) / real_of_int k\<rceil>)"
proof -
  have k0: "k \<noteq> 0" using assms by simp
  show ?thesis
    using play_frame_frames [OF k0, of B a states actions render wr cams verbose L i c s c1 s1]
      env_loop_frames [OF assms, of B a states actions render wr cams verbose L xs s c' s']
      playback_env_frames [OF assms, of B a init states actions render wr cams verbose seed s s2]
      obs_body_frames [OF k0, of grp vw names i c lg d1 lg1]
      playback_obs_frames [OF assms, of grp wr names lg lg2 name0 imgs0]
    by blast
qed

theorem frames_written_every_kth_witness:
  "fst (playback_trajectory_with_env sample_backend sample_args
          \<lparr>sd_states = Some [0, 0], sd_model = Some ''<mujoco/>'', sd_ep_meta = Some None\<rparr>
          [[0, 0], [1, 0], [5, 0], [6, 0]] None False (Some ''demos_demo_10.mp4'') 2
          (Some [''egoview'']) False False 0 \<lparr>sim = (0, 0), viewer = False, out = []\<rparr>) = None
   \<and> length (filter is_frame (out (snd (playback_trajectory_with_env sample_backend sample_args
          \<lparr>sd_states = Some [0, 0], sd_model = Some ''<mujoco/>'', sd_ep_meta = Some None\<rparr>
          [[0, 0], [1, 0], [5, 0], [6, 0]] None False (Some ''demos_demo_10.mp4'') 2
          (Some [''egoview'']) False False 0 \<lparr>sim = (0, 0), viewer = False, out = []\<rparr>)))) = 2
   \<and> fst (playback_trajectory_with_obs sample_episode (Some ''demos_demo_10.mp4'') 2
          (Some [''egoview'']) False []) = None
   \<and> length (filter is_frame (snd (playback_trajectory_with_obs sample_episode
          (Some ''demos_demo_10.mp4'') 2 (Some [''egoview'']) False []))) = 3"
proof -
  let ?init = "\<lparr>sd_states = Some [0, 0], sd_model = Some ''<mujoco/>'', sd_ep_meta = Some None\<rparr>"
  let ?s = "\<lparr>sim = (0::real, 0::real), viewer = False, out = ([] :: string event list)\<rparr>"
  let ?env = "playback_trajectory_with_env sample_backend sample_args ?init
          [[0, 0], [1, 0], [5, 0], [6, 0]] None False (Some ''demos_demo_10.mp4'') 2
          (Some [''egoview'']) False False 0 ?s"
  let ?obs = "playback_trajectory_with_obs sample_episode (Some ''demos_demo_10.mp4'') 2
          (Some [''egoview'']) False ([] :: string event list)"
  have k: "(1::int) \<le> 2" by simp
  have e: "fst ?env = None"
    by (simp add: playback_defs upto.simps)
  then have e': "?env = (None, snd ?env)" by (cases ?env) simp
  have o: "fst ?obs = None"
    by (simp add: playback_defs upto.simps)
  then have o': "?obs = (None, snd ?obs)" by (cases ?obs) simp
  have n0: "py_index [''egoview''] 0 = Inr ''egoview''" by (simp add: py_index_def)
  have im: "obs_images sample_episode ''egoview'' = Inr [''f0'', ''f1'', ''f2'', ''f3'', ''f4'']"
    by (simp add: obs_images_def sample_episode_def)
  have w: "select_window (args_num_frames sample_args) (int (length [[0, 0], [1, 0], [5, 0], [6, 0::real]])) 0
             = Inr (0, 4)"
    by (simp add: select_window_def sample_args_def)
  note th = frames_written_every_kth [OF k, where B = sample_backend and a = sample_args
      and init = ?init and states = "[[0, 0], [1, 0], [5, 0], [6, 0]]" and actions = None
      and render = False and wr = "''demos_demo_10.mp4''" and cams = "Some [''egoview'']"
      and verbose = False and seed = 0 and s = ?s and ?s2.0 = "snd ?env"
      and grp = sample_episode and names = "[''egoview'']" and lg = "[]" and ?lg2.0 = "snd ?obs"
      and ?name0.0 = "''egoview''" and ?imgs0.0 = "[''f0'', ''f1'', ''f2'', ''f3'', ''f4'']"]
  from th e' w have "int (length (filter is_frame (out (snd ?env))))
      = int (length (filter is_frame (out ?s))) + \<lceil>real (length (py_range 0 4)) / real_of_int 2\<rceil>"
    by auto
  then have fe: "length (filter is_frame (out (snd ?env))) = 2"
    by (simp add: length_py_range)
  from th o' n0 im have "int (length (filter is_frame (snd ?obs)))
      = int (length (filter is_frame ([] :: string event list)))
        + \<lceil>real (length [''f0'', ''f1'', ''f2'', ''f3'', ''f4'']) / real_of_int 2\<rceil>"
    by blast
  then have fo: "length (filter is_frame (snd ?obs)) = 3"
    by simp
  from e fe o fo show ?thesis by simp
qed

subsection \<open>Scene reloads in state replay\<close>
















subsection \<open>Action replay and the divergence check\<close>











subsection \<open>The window in both replay modes\<close>

lemma for_loop_adds:
  assumes "\<And>x s s1. body x s = (None, s1) \<Longrightarrow> F s1 = Suc (F s)"
    and "for_loop body False xs s = (None, s')"
  shows "F s' = F s + length xs"
  using assms(2)
proof (induction xs arbitrary: s)
  case Nil
  then show ?case by simp
next
  case (Cons x xs)
  obtain r s1 where b: "body x s = (r, s1)" by (cases "body x s") auto
  with Cons.prems have r: "r = None" by (cases r) auto
  with b Cons.prems have "for_loop body False xs s1 = (None, s')" by simp
  from Cons.IH [OF this] assms(1) [of x s s1] b r show ?case by simp
qed

lemma play_frame_adds_one:
  assumes ok: "play_frame B a states actions render vw k cams verbose L i vs = (None, vs1)"
    and replay: "\<And>sa. (case actions of
                          Some acts \<Rightarrow> action_step B states acts verbose L i (snd vs)
                        | None \<Rightarrow> state_step B states i (snd vs)) = (None, sa)
                   \<Longrightarrow> length (filter K (out sa)) = Suc (length (filter K (out (snd vs))))"
    and K: "\<not> K (Env InitializeRenderer)" "\<not> K (Env ViewerUpdate)" "\<And>imgs. \<not> K (AppendData imgs)"
  shows "length (filter K (out (snd vs1))) = Suc (length (filter K (out (snd vs))))"
proof -
  obtain c s where vs: "vs = (c, s)" by (cases vs) auto
  define replay where "replay = (case actions of
      Some acts \<Rightarrow> action_step B states acts verbose L i s
    | None \<Rightarrow> state_step B states i s)"
  obtain r sa where rp: "replay = (r, sa)" by (cases replay) auto
  define sb where "sb = (if render then on_screen B sa else sa)"
  obtain rv sv where v: "video_frame B a cams sb = (rv, sv)"
    by (cases "video_frame B a cams sb") auto
  have qv: "filter K (out sv) = filter K (out sb)"
    using v K(3) by (auto simp: video_frame_def emit_def split: option.splits if_splits)
  have qb: "filter K (out sb) = filter K (out sa)"
    using K(1,2) by (simp add: sb_def on_screen_def call_def Let_def)
  have r: "r = None"
  proof (cases r)
    case (Some e)
    with rp have "fst (play_frame B a states actions render vw k cams verbose L i (c, s)) = Some e"
      unfolding replay_def by (simp add: play_frame_def)
    with ok vs show ?thesis by simp
  qed
  from rp r have "(case actions of
        Some acts \<Rightarrow> action_step B states acts verbose L i (snd vs)
      | None \<Rightarrow> state_step B states i (snd vs)) = (None, sa)"
    unfolding replay_def vs by (cases actions) simp_all
  from replay [OF this] have qa: "length (filter K (out sa)) = Suc (length (filter K (out s)))"
    by (simp add: vs)
  have "filter K (out (snd vs1)) = filter K (out sa)"
  proof (cases vw)
    case None
    with rp r ok vs have "vs1 = (c, sb)"
      unfolding replay_def sb_def by (simp add: play_frame_def Let_def)
    with qb show ?thesis by simp
  next
    case (Some w)
    have "play_frame B a states actions render vw k cams verbose L i (c, s) =
        (if k = 0 then (Some ZeroDivisionError, (c, sb))
         else (case (if c mod k = 0 then (rv, sv) else (None, sb)) of
                 (Some e, s3) \<Rightarrow> (Some e, (c, s3))
               | (None, s3) \<Rightarrow> (None, (c + 1, s3))))"
      using rp r v Some unfolding replay_def sb_def
      by (simp add: play_frame_def Let_def)
    with ok vs have "snd vs1 = sv \<or> snd vs1 = sb"
      by (cases rv) (auto split: if_splits)
    with qv qb show ?thesis by auto
  qed
  with qa vs show ?thesis by simp
qed

lemma action_step_adds_step:
  assumes "action_step B states acts verbose L i s = (None, sa)"
  shows "length (filter is_step (out sa)) = Suc (length (filter is_step (out s)))"
  using assms
  by (auto simp: action_step_def call_def emit_def Let_def split: sum.splits if_splits)

lemma state_step_adds_restore:
  assumes "state_step B states i s = (None, sa)"
  shows "length (filter is_restore (out sa)) = Suc (length (filter is_restore (out s)))"
  using assms
  by (auto simp: state_step_def reset_to_def call_def Let_def split: sum.splits)

lemma playback_window_count:
  assumes run: "playback_trajectory_with_env B a init states actions render vw k cams
                  False verbose seed s = (None, s')"
    and body: "\<And>i vs vs1.
        play_frame B a states actions render vw k cams verbose (int (length states)) i vs
          = (None, vs1)
        \<Longrightarrow> length (filter K (out (snd vs1))) = Suc (length (filter K (out (snd vs))))"
    and K: "\<And>p. \<not> K (Print p)" "\<not> K (Env ViewerClose)"
  shows "\<exists>start_frame end_frame.
           select_window (args_num_frames a) (int (length states)) seed = Inr (start_frame, end_frame)
         \<and> length (filter K (out s'))
             = length (filter K (out (snd (reset_to B init (snd (announce B init verbose s))))))
               + length (py_range start_frame end_frame)"
proof -
  obtain r1 s1 where a1: "announce B init verbose s = (r1, s1)"
    by (cases "announce B init verbose s") auto
  obtain r2 s2 where a2: "reset_to B init s1 = (r2, s2)"
    by (cases "reset_to B init s1") auto
  from run have nr: "\<not> (render \<and> vw \<noteq> None)"
    by (auto simp: playback_trajectory_with_env_def split: if_splits)
  from run nr a1 have r1: "r1 = None"
    by (cases r1) (auto simp: playback_trajectory_with_env_def)
  from run nr a1 a2 r1 have r2: "r2 = None"
    by (cases r2) (auto simp: playback_trajectory_with_env_def)
  define s3 where "s3 = (if \<not> render then emit (Print ''Running episode...'') s2 else s2)"
  have f3: "filter K (out s3) = filter K (out s2)"
    using K(1) by (simp add: s3_def emit_def)
  obtain w where w: "select_window (args_num_frames a) (int (length states)) seed = w" by simp
  from run nr a1 a2 r1 r2 w obtain start_frame end_frame where
    win: "w = Inr (start_frame, end_frame)"
    by (cases w) (auto simp: playback_trajectory_with_env_def Let_def split: if_splits)
  define loop where "loop = for_loop (play_frame B a states actions render vw k cams
      verbose (int (length states))) False (py_range start_frame end_frame) (0, s3)"
  obtain r c' s4 where l: "loop = (r, (c', s4))" by (cases loop) auto
  from run nr a1 a2 r1 r2 w win l have r: "r = None"
    and f5: "filter K (out s') = filter K (out s4)"
    unfolding loop_def s3_def using K(2)
    by (cases r; auto simp: playback_trajectory_with_env_def Let_def call_def split: if_splits)+
  from l r have "for_loop (play_frame B a states actions render vw k cams
      verbose (int (length states))) False (py_range start_frame end_frame) (0, s3) = (None, (c', s4))"
    by (simp add: loop_def)
  from for_loop_adds [where F = "\<lambda>vs. length (filter K (out (snd vs)))", OF body this]
  have "length (filter K (out s4)) = length (filter K (out s3)) + length (py_range start_frame end_frame)"
    by simp
  with f3 f5 a1 a2 w win show ?thesis by simp
qed

lemma initial_load_restores:
  assumes "reset_to B init s = (None, s')"
  shows "length (filter is_restore (out s'))
           = length (filter is_restore (out s)) + (case sd_states init of Some v \<Rightarrow> 1 | None \<Rightarrow> 0)"
proof (cases "sd_model init")
  case None
  with assms show ?thesis
    by (auto simp: reset_to_def call_def Let_def split: option.splits)
next
  case (Some model)
  obtain r s1 where m: "reset_to_model B model (sd_ep_meta init) s = (r, s1)"
    by (cases "reset_to_model B model (sd_ep_meta init) s") auto
  have "filter is_restore (out s1) = filter is_restore (out s)"
    using m by (auto simp: reset_to_model_def call_def Let_def split: option.splits if_splits)
  with assms Some m show ?thesis
    by (cases r) (auto simp: reset_to_def call_def Let_def split: option.splits)
qed

text \<open>
  C3. For a trajectory of length \<open>L\<close> and \<open>num_frames = w < L\<close>: whatever the random
  draw, the selected start index lies in \<open>[0, L - w]\<close>, the end index is the start plus
  \<open>w\<close>, and the window is the \<open>w\<close> consecutive indices from the start, all of them
  indices of the trajectory. The selection does not look at the replay mode: a run that
  returns, with first-only mode off, has made exactly \<open>w\<close> simulator steps in action
  replay, and in state replay exactly \<open>w\<close> restores after the initial load.
\<close>

theorem window_within_trajectory:
  fixes w L :: nat
  assumes "w < L"
  shows "(\<exists>start_frame.
           select_window (Some (int w)) (int L) seed = Inr (start_frame, start_frame + int w)
         \<and> 0 \<le> start_frame \<and> start_frame \<le> int L - int w
         \<and> length (py_range start_frame (start_frame + int w)) = w
         \<and> py_range start_frame (start_frame + int w) = map (\<lambda>j. start_frame + int j) [0..<w]
         \<and> (\<forall>i \<in> set (py_range start_frame (start_frame + int w)). 0 \<le> i \<and> i < int L))
       \<and> (args_num_frames a = Some (int w) \<and> length states = L
            \<and> playback_trajectory_with_env B a init states (Some acts) render vw k cams
                 False verbose seed s = (None, s')
          \<longrightarrow> length (filter is_step (out s')) = length (filter is_step (out s)) + w)
       \<and> (args_num_frames a = Some (int w) \<and> length states = L
            \<and> playback_trajectory_with_env B a init states None render vw k cams
                 False verbose seed s = (None, s')
          \<longrightarrow> length (filter is_restore (out s'))
                = length (filter is_restore
                    (out (snd (reset_to B init (snd (announce B init verbose s)))))) + w)"
proof (intro conjI impI)
  let ?m = "int L - int w + 1"
  let ?s = "int seed mod ?m"
  have m: "min (int w) (int L) = int w" using assms by simp
  have pos: "0 < ?m" using assms by simp
  have sel: "select_window (Some (int w)) (int L) seed = Inr (?s, ?s + int w)"
    by (simp add: select_window_Some m)
  have lo: "0 \<le> ?s" using pos by simp
  have "?s < ?m" using pos by (rule pos_mod_bound)
  then have hi: "?s \<le> int L - int w" by simp
  have len: "length (py_range ?s (?s + int w)) = w" by (simp add: length_py_range)
  have idx: "py_range ?s (?s + int w) = map (\<lambda>j. ?s + int j) [0..<w]"
    by (rule nth_equalityI) (simp_all add: length_py_range py_range_def)
  have inside: "\<forall>i \<in> set (py_range ?s (?s + int w)). 0 \<le> i \<and> i < int L"
    using lo hi by (auto simp: set_py_range)
  from sel lo hi len idx inside
  show "\<exists>start_frame.
           select_window (Some (int w)) (int L) seed = Inr (start_frame, start_frame + int w)
         \<and> 0 \<le> start_frame \<and> start_frame \<le> int L - int w
         \<and> length (py_range start_frame (start_frame + int w)) = w
         \<and> py_range start_frame (start_frame + int w) = map (\<lambda>j. start_frame + int j) [0..<w]
         \<and> (\<forall>i \<in> set (py_range start_frame (start_frame + int w)). 0 \<le> i \<and> i < int L)"
    by blast
  {
    assume h: "args_num_frames a = Some (int w) \<and> length states = L
            \<and> playback_trajectory_with_env B a init states (Some acts) render vw k cams
                 False verbose seed s = (None, s')"
    then have run: "playback_trajectory_with_env B a init states (Some acts) render vw k cams
                 False verbose seed s = (None, s')" by simp
    have "\<exists>start_frame end_frame.
           select_window (args_num_frames a) (int (length states)) seed = Inr (start_frame, end_frame)
         \<and> length (filter is_step (out s'))
             = length (filter is_step (out (snd (reset_to B init (snd (announce B init verbose s))))))
               + length (py_range start_frame end_frame)"
    proof (rule playback_window_count [OF run])
      fix i vs vs1
      assume "play_frame B a states (Some acts) render vw k cams verbose (int (length states)) i vs
                = (None, vs1)"
      then show "length (filter is_step (out (snd vs1))) = Suc (length (filter is_step (out (snd vs))))"
        by (rule play_frame_adds_one) (simp_all add: action_step_adds_step)
    qed simp_all
    with h sel len show "length (filter is_step (out s')) = length (filter is_step (out s)) + w"
      by (auto simp: reset_to_steps announce_steps)
  }
  {
    assume h: "args_num_frames a = Some (int w) \<and> length states = L
            \<and> playback_trajectory_with_env B a init states None render vw k cams
                 False verbose seed s = (None, s')"
    then have run: "playback_trajectory_with_env B a init states None render vw k cams
                 False verbose seed s = (None, s')" by simp
    have "\<exists>start_frame end_frame.
           select_window (args_num_frames a) (int (length states)) seed = Inr (start_frame, end_frame)
         \<and> length (filter is_restore (out s'))
             = length (filter is_restore (out (snd (reset_to B init (snd (announce B init verbose s))))))
               + length (py_range start_frame end_frame)"
    proof (rule playback_window_count [OF run])
      fix i vs vs1
      assume "play_frame B a states None render vw k cams verbose (int (length states)) i vs
                = (None, vs1)"
      then show "length (filter is_restore (out (snd vs1)))
                   = Suc (length (filter is_restore (out (snd vs))))"
        by (rule play_frame_adds_one) (simp_all add: state_step_adds_restore)
    qed simp_all
    with h sel len show "length (filter is_restore (out s'))
                = length (filter is_restore
                    (out (snd (reset_to B init (snd (announce B init verbose s)))))) + w"
      by auto
  }
qed

theorem window_within_trajectory_witness:
  "select_window (Some 2) 4 7 = Inr (1, 3)
   \<and> py_range 1 3 = [1, 2]
   \<and> length (filter is_step (out (snd (playback_trajectory_with_env sample_backend
          (sample_args\<lparr>args_num_frames := Some 2\<rparr>)
          \<lparr>sd_states = Some [0, 0], sd_model = Some ''<mujoco/>'', sd_ep_meta = Some None\<rparr>
          [[0, 0], [1, 0], [5, 0], [6, 0]] (Some [[1], [1], [1], [1]]) False None 1
          (Some [''egoview'']) False False 7 \<lparr>sim = (0, 0), viewer = False, out = []\<rparr>)))) = 2
   \<and> length (filter is_restore (out (snd (playback_trajectory_with_env sample_backend
          (sample_args\<lparr>args_num_frames := Some 2\<rparr>)
          \<lparr>sd_states = Some [0, 0], sd_model = Some ''<mujoco/>'', sd_ep_meta = Some None\<rparr>
          [[0, 0], [1, 0], [5, 0], [6, 0]] None False None 1
          (Some [''egoview'']) False False 7 \<lparr>sim = (0, 0), viewer = False, out = []\<rparr>)))) = 3"
proof -
  let ?a = "sample_args\<lparr>args_num_frames := Some 2\<rparr>"
  let ?init = "\<lparr>sd_states = Some [0, 0], sd_model = Some ''<mujoco/>'', sd_ep_meta = Some None\<rparr>"
  let ?s = "\<lparr>sim = (0::real, 0::real), viewer = False, out = ([] :: string event list)\<rparr>"
  let ?sts = "[[0, 0], [1, 0], [5, 0], [6, 0::real]]"
  let ?act = "playback_trajectory_with_env sample_backend ?a ?init ?sts
          (Some [[1], [1], [1], [1]]) False None 1 (Some [''egoview'']) False False 7 ?s"
  let ?sta = "playback_trajectory_with_env sample_backend ?a ?init ?sts
          None False None 1 (Some [''egoview'']) False False 7 ?s"
  have wl: "(2::nat) < 4" by simp
  have nf: "args_num_frames ?a = Some (int 2)" by simp
  have len: "length ?sts = 4" by simp
  have ra: "fst ?act = None"
    by (simp add: playback_defs upto.simps)
  then have ra': "?act = (None, snd ?act)" by (cases ?act) simp
  have rs: "fst ?sta = None"
    by (simp add: playback_defs upto.simps)
  then have rs': "?sta = (None, snd ?sta)" by (cases ?sta) simp
  have base: "length (filter is_restore
      (out (snd (reset_to sample_backend ?init (snd (announce sample_backend ?init False ?s)))))) = 1"
    by (simp add: announce_def reset_to_def reset_to_model_def call_def sample_backend_def Let_def)
  note th = window_within_trajectory [OF wl, where seed = 7 and a = ?a and states = ?sts
      and B = sample_backend and init = ?init and acts = "[[1], [1], [1], [1]]"
      and render = False and vw = None and k = 1 and cams = "Some [''egoview'']"
      and verbose = False and s = ?s]
  from th obtain start_frame where
    sel: "select_window (Some (int 2)) (int 4) 7 = Inr (start_frame, start_frame + int 2)"
    and idx: "py_range start_frame (start_frame + int 2) = map (\<lambda>j. start_frame + int j) [0..<2]"
    by blast
  have "select_window (Some (int 2)) (int 4) 7 = Inr (1, 3)"
    by (simp add: select_window_def randrange_def)
  with sel have st: "start_frame = 1" by simp
  from sel st have a: "select_window (Some 2) 4 7 = Inr (1, 3)" by simp
  from idx st have b: "py_range 1 3 = [1, 2]" by (simp add: upt_rec)
  from th [THEN conjunct2, THEN conjunct1, rule_format, where s' = "snd ?act"] nf len ra'
  have c: "length (filter is_step (out (snd ?act))) = length (filter is_step (out ?s)) + 2"
    by blast
  from th [THEN conjunct2, THEN conjunct2, rule_format, where s' = "snd ?sta"] nf len rs'
  have d: "length (filter is_restore (out (snd ?sta)))
      = length (filter is_restore
          (out (snd (reset_to sample_backend ?init (snd (announce sample_backend ?init False ?s)))))) + 2"
    by blast
  from a b c d base show ?thesis by simp
qed

end
